theory Spec2Isabelle
  imports Complex_Main "HOL-Library.List_Lexorder"
begin

text \<open>
  Embedding of the OT-EVS training notebook: the enumeration of the k-local observables,
  the shot-noise emulation, the nearest-neighbour KLD estimator, the checkpoint selection
  of the training loop, and the training run: its set-up, its data loader and its compiled
  step of the joint update schedule. Python
  integers are \<open>int\<close> or \<open>nat\<close>, floating-point numbers are reals, exceptions are values
  of \<open>error\<close>.
\<close>

section \<open>Errors raised by the Python code\<close>

datatype error = ValueError | IndexError | AssertionError | ZeroDivisionError | UnboundLocalError

section \<open>Observable enumeration\<close>

text \<open>
  \<^verbatim>\<open>itertools.product(xs, repeat=n)\<close>: all length-\<open>n\<close> tuples over \<open>xs\<close>, the
  rightmost position advancing fastest.
\<close>

fun product_repeat :: "'a list \<Rightarrow> nat \<Rightarrow> 'a list list" where
  "product_repeat xs 0 = [[]]"
| "product_repeat xs (Suc n) = concat (map (\<lambda>x. map ((#) x) (product_repeat xs n)) xs)"

text \<open>\<^verbatim>\<open>sum(1 for x in t if x == 0)\<close>\<close>

definition n_zero :: "int list \<Rightarrow> int" where
  "n_zero t = int (length (filter (\<lambda>x. x = 0) t))"

text \<open>
  \<^verbatim>\<open>get_all_k_local_observables(nq, k)\<close>. A negative \<open>repeat\<close> makes
  \<^verbatim>\<open>itertools.product\<close> raise ValueError; nothing else is checked.
\<close>

definition get_all_k_local_observables :: "int \<Rightarrow> int \<Rightarrow> error + int list list" where
  "get_all_k_local_observables nq k =
     (if nq < 0 then Inl ValueError
      else Inr (filter (\<lambda>t. n_zero t \<ge> nq - k \<and> n_zero t < nq)
                  (product_repeat [0, 1, 2, 3] (nat nq))))"

text \<open>The number of non-identity sites of an index tuple.\<close>

definition support :: "int list \<Rightarrow> nat" where
  "support t = length (filter (\<lambda>x. x \<noteq> 0) t)"

section \<open>KLD estimator\<close>

text \<open>
  Points are rows of a two-dimensional array; reals stand for the float32 values of the
  source. \<open>sqdist\<close> is the squared Euclidean distance that \<^verbatim>\<open>faiss.IndexFlatL2\<close>
  reports.
\<close>

type_synonym point = "real list"

definition sqdist :: "point \<Rightarrow> point \<Rightarrow> real" where
  "sqdist x y = sum_list (map2 (\<lambda>a b. (a - b)\<^sup>2) x y)"

text \<open>
  \<^verbatim>\<open>np.sqrt(index.search(queries, k)[0])\<close> for an index holding \<open>pts\<close>: one row per
  query, the distances to its \<open>k\<close> nearest indexed points in ascending order.
\<close>

definition fulldist :: "point list \<Rightarrow> point list \<Rightarrow> nat \<Rightarrow> real list list" where
  "fulldist pts queries k = map (\<lambda>q. map sqrt (take k (sort (map (sqdist q) pts)))) queries"

text \<open>
  \<^verbatim>\<open>np.searchsorted(a, v, side='right')\<close> on an ascending array: the insertion point
  after every entry \<open>\<le> v\<close>.
\<close>

definition searchsorted_right :: "real list \<Rightarrow> real \<Rightarrow> nat" where
  "searchsorted_right a v = length (takeWhile (\<lambda>x. x \<le> v) a)"

text \<open>\<^verbatim>\<open>fulldist1[::,1]\<close>, \<^verbatim>\<open>fulldist2[::,0]\<close> and \<^verbatim>\<open>np.maximum(rhoi, nui)\<close>.\<close>

definition kld_rhoi :: "point list \<Rightarrow> real list" where
  "kld_rhoi s1 = map (\<lambda>r. r ! 1) (fulldist s1 s1 (length s1))"

definition kld_nui :: "point list \<Rightarrow> point list \<Rightarrow> real list" where
  "kld_nui s1 s2 = map (\<lambda>r. r ! 0) (fulldist s2 s1 (length s2))"

definition kld_epsilon :: "point list \<Rightarrow> point list \<Rightarrow> real list" where
  "kld_epsilon s1 s2 = map2 max (kld_rhoi s1) (kld_nui s1 s2)"

text \<open>
  The two list comprehensions. \<open>li\<close> ranges over \<^verbatim>\<open>range(m)\<close>, \<open>ki\<close> over
  \<^verbatim>\<open>range(n)\<close>, where \<open>n = len(s1)\<close> and \<open>m = len(s2)\<close>; both index rows of arrays with \<open>n\<close>
  rows, which the caller of these two functions guards.
\<close>

definition kld_li :: "point list \<Rightarrow> point list \<Rightarrow> int list" where
  "kld_li s1 s2 =
     map (\<lambda>i. int (searchsorted_right (fulldist s1 s1 (length s1) ! i) (kld_epsilon s1 s2 ! i)) - 1)
       [0..<length s2]"

definition kld_ki :: "point list \<Rightarrow> point list \<Rightarrow> int list" where
  "kld_ki s1 s2 =
     map (\<lambda>i. int (searchsorted_right (fulldist s2 s1 (length s2) ! i) (kld_epsilon s1 s2 ! i)))
       [0..<length s1]"

text \<open>Subtraction of two one-dimensional arrays with numpy's broadcasting rule.\<close>

definition np_sub :: "real list \<Rightarrow> real list \<Rightarrow> error + real list" where
  "np_sub a b =
     (if length a = length b then Inr (map2 (-) a b)
      else if length a = 1 then Inr (map (\<lambda>y. hd a - y) b)
      else if length b = 1 then Inr (map (\<lambda>x. x - hd b) a)
      else Inl ValueError)"

definition mean :: "real list \<Rightarrow> real" where
  "mean xs = sum_list xs / real (length xs)"

text \<open>
  \<^verbatim>\<open>np.array\<close> refuses a list of rows of unequal length.
\<close>

definition ragged :: "point list \<Rightarrow> bool" where
  "ragged xs \<longleftrightarrow> \<not> (\<forall>x \<in> set xs. length x = length (hd xs))"

text \<open>
  \<^verbatim>\<open>kld_estimator(s1, s2)\<close>. \<open>digamma\<close> is \<^verbatim>\<open>scipy.special.digamma\<close> on the integer
  counts. The failures of the source are kept in its order: both arrays are built first
  (ValueError for rows of unequal length); an empty \<open>s1\<close> is one-dimensional and has no
  \<^verbatim>\<open>shape[1]\<close> (IndexError); adding an empty, one-dimensional \<open>s2\<close> to its index fails
  to unpack the shape (ValueError); the index asserts that the rows of \<open>s2\<close> have the
  dimension of \<open>s1\<close> (AssertionError); \<^verbatim>\<open>fulldist1[::,1]\<close> needs two columns; the
  comprehension for \<open>li\<close> reads row \<open>i\<close> of \<open>fulldist1\<close> for every \<open>i < m\<close>; the final
  subtraction broadcasts or fails.
\<close>

definition kld_estimator :: "(int \<Rightarrow> real) \<Rightarrow> point list \<Rightarrow> point list \<Rightarrow> error + real" where
  "kld_estimator digamma s1 s2 =
     (let n = length s1; m = length s2 in
      if ragged s1 \<or> ragged s2 then Inl ValueError
      else if n = 0 then Inl IndexError
      else if m = 0 then Inl ValueError
      else if length (hd s2) \<noteq> length (hd s1) then Inl AssertionError
      else if n < 2 then Inl IndexError
      else if n < m then Inl IndexError
      else case np_sub (map digamma (kld_li s1 s2)) (map digamma (kld_ki s1 s2)) of
             Inl e \<Rightarrow> Inl e
           | Inr ds \<Rightarrow> Inr (mean ds + ln (real m / real (n - 1))))"

text \<open>
  On a positive integer \<open>n\<close>, digamma is the harmonic sum \<open>1 + 1/2 + \<dots> + 1/(n - 1)\<close> minus
  the Euler-Mascheroni constant. The estimator only uses differences of digamma values,
  where the constant cancels, so closed examples are evaluated with the harmonic sum.
\<close>

definition digamma_plus_gamma :: "int \<Rightarrow> real" where
  "digamma_plus_gamma n = (\<Sum>j = 1..<nat n. 1 / real j)"

text \<open>The Euclidean distance of two points, for stating what the estimator computes.\<close>

definition euclidean :: "point \<Rightarrow> point \<Rightarrow> real" where
  "euclidean x y = sqrt (sqdist x y)"

section \<open>Shot noise\<close>

text \<open>\<^verbatim>\<open>jnp.clip(x, lo, hi)\<close>\<close>

definition clip :: "real \<Rightarrow> real \<Rightarrow> real \<Rightarrow> real" where
  "clip x lo hi = min (max x lo) hi"

text \<open>
  \<^verbatim>\<open>add_sampling_error(exact, n_shots, key)\<close>. \<open>normal\<close> is \<^verbatim>\<open>jax.random.normal\<close>, a
  function of the key; \<^verbatim>\<open>jnp.clip(x, min=1e-16)\<close> is \<open>max x (1 / 10 ^ 16)\<close>. Reals stand
  for the floats of the source, so the model is the source for \<open>n_shots \<noteq> 0\<close> only: there
  the float division yields an infinity or a NaN, which a real is not.
\<close>

definition add_sampling_error :: "('k \<Rightarrow> real) \<Rightarrow> real \<Rightarrow> int \<Rightarrow> 'k \<Rightarrow> real" where
  "add_sampling_error normal exact n_shots key =
     (let p = clip ((1 - exact) / 2) 0 1;
          mean = of_int n_shots * p;
          std = sqrt (max (of_int n_shots * p * (1 - p)) (1 / 10 ^ 16))
      in 1 - 2 * clip ((normal key * std + mean) / of_int n_shots) 0 1)"

section \<open>Checkpoint selection in the training loop\<close>

text \<open>The iterations at which the parameters are always serialised.\<close>

definition milestones :: "nat list" where
  "milestones = [0, 1, 2, 5, 10, 20, 50, 100, 200, 500, 1000, 2000, 5000, 10000, 20000, 50000]"

text \<open>
  The variables of \<^verbatim>\<open>train\<close> that the selection reads and writes: \<open>kld\<close> (\<open>None\<close> while the
  variable is unbound), \<open>best\<close> (\<open>None\<close> for \<^verbatim>\<open>np.infty\<close>), \<open>best_i\<close>, and the iterations
  whose parameters have been serialised, in order.
\<close>

record selector =
  kld :: "real option"
  best :: "real option"
  best_i :: nat
  saved :: "nat list"

definition init_selector :: selector where
  "init_selector = \<lparr>kld = None, best = None, best_i = 0, saved = []\<rparr>"

text \<open>\<^verbatim>\<open>kld < best\<close>, where \<open>best\<close> may still be infinity.\<close>

fun less_best :: "real \<Rightarrow> real option \<Rightarrow> bool" where
  "less_best k None = True"
| "less_best k (Some b) = (k < b)"

text \<open>
  The body of the loop after the training step, at iteration \<open>i\<close>. \<open>score i\<close> is the value
  \<^verbatim>\<open>kld_estimator(fake_imgs, real_imgs)\<close> returns when it is called at iteration \<open>i\<close>.
  \<^verbatim>\<open>i % config.eval_freq\<close> raises ZeroDivisionError for a zero frequency; reading \<open>kld\<close>
  before its first assignment raises UnboundLocalError.
\<close>

definition train_iter :: "int \<Rightarrow> (nat \<Rightarrow> real) \<Rightarrow> nat \<Rightarrow> selector \<Rightarrow> error + selector" where
  "train_iter eval_freq score i s =
     (if eval_freq = 0 then Inl ZeroDivisionError
      else let s1 = (if int i mod eval_freq = 0 then s\<lparr>kld := Some (score i)\<rparr> else s) in
        if i \<in> set milestones then Inr (s1\<lparr>saved := saved s1 @ [i]\<rparr>)
        else case kld s1 of
               None \<Rightarrow> Inl UnboundLocalError
             | Some k \<Rightarrow>
                 if less_best k (best s1)
                 then Inr (s1\<lparr>saved := saved s1 @ [i], best := Some k, best_i := i\<rparr>)
                 else Inr s1)"

text \<open>\<^verbatim>\<open>for i in range(config.n_iter + 1)\<close>, stopping at the first exception.\<close>

fun run_iters :: "int \<Rightarrow> (nat \<Rightarrow> real) \<Rightarrow> nat list \<Rightarrow> selector \<Rightarrow> error + selector" where
  "run_iters eval_freq score [] s = Inr s"
| "run_iters eval_freq score (i # is) s =
     (case train_iter eval_freq score i s of
        Inl e \<Rightarrow> Inl e
      | Inr s' \<Rightarrow> run_iters eval_freq score is s')"

definition train_loop :: "int \<Rightarrow> (nat \<Rightarrow> real) \<Rightarrow> int \<Rightarrow> error + selector" where
  "train_loop eval_freq score n_iter = run_iters eval_freq score [0..<nat (n_iter + 1)] init_selector"

text \<open>
  The score in effect at iteration \<open>i\<close>: the one computed at the latest iteration up to
  \<open>i\<close> that the evaluation frequency divides.
\<close>

definition score_in_effect :: "int \<Rightarrow> (nat \<Rightarrow> real) \<Rightarrow> nat \<Rightarrow> real" where
  "score_in_effect eval_freq score i = score (i - nat (int i mod eval_freq))"

text \<open>A run that evaluates only at iteration 0, with score 5.\<close>

definition flat_score :: "nat \<Rightarrow> real" where
  "flat_score i = 5"

text \<open>
  The scores \<open>5.0, 5.0, 4.9, 6.0, 4.0\<close> at the first five iterations that are not
  milestones (3, 4, 6, 7 and 8), and \<open>other\<close> at the milestones in between.
\<close>

definition scenario_score :: "real \<Rightarrow> nat \<Rightarrow> real" where
  "scenario_score other i =
     (if i = 3 then 5 else if i = 4 then 5 else if i = 6 then 49 / 10
      else if i = 7 then 6 else if i = 8 then 4 else other)"

text \<open>
  Whether the loop serialises the parameters at iteration \<open>i\<close>, in terms of the scores:
  \<open>i\<close> is a milestone, or the score in effect at \<open>i\<close> is strictly below the score in
  effect at every earlier iteration that is not a milestone.
\<close>

definition checkpoint_at :: "int \<Rightarrow> (nat \<Rightarrow> real) \<Rightarrow> nat \<Rightarrow> bool" where
  "checkpoint_at eval_freq score i \<longleftrightarrow>
     i \<in> set milestones \<or>
     (\<forall>j < i. j \<notin> set milestones \<longrightarrow>
        score_in_effect eval_freq score i < score_in_effect eval_freq score j)"

text \<open>The state of the selection after the iterations \<open>0, \<dots>, k - 1\<close>.\<close>

definition selector_inv :: "int \<Rightarrow> (nat \<Rightarrow> real) \<Rightarrow> nat \<Rightarrow> selector \<Rightarrow> bool" where
  "selector_inv eval_freq score k s \<longleftrightarrow>
     (k = 0 \<longrightarrow> kld s = None) \<and>
     (0 < k \<longrightarrow> kld s = Some (score_in_effect eval_freq score (k - 1))) \<and>
     saved s = filter (checkpoint_at eval_freq score) [0..<k] \<and>
     (best s = None \<longrightarrow> (\<forall>j < k. j \<in> set milestones) \<and> best_i s = 0) \<and>
     (\<forall>b. best s = Some b \<longrightarrow>
        best_i s < k \<and> best_i s \<notin> set milestones \<and> checkpoint_at eval_freq score (best_i s) \<and>
        b = score_in_effect eval_freq score (best_i s) \<and>
        (\<forall>j < k. j \<notin> set milestones \<longrightarrow> b \<le> score_in_effect eval_freq score j))"

text \<open>
  The selection as the specification words it, for comparison with the loop: outside the
  milestones a checkpoint is taken only at an iteration where a score is newly computed
  and is strictly below every score computed before.
\<close>

definition spec_checkpoint_at :: "int \<Rightarrow> (nat \<Rightarrow> real) \<Rightarrow> nat \<Rightarrow> bool" where
  "spec_checkpoint_at eval_freq score i \<longleftrightarrow>
     i \<in> set milestones \<or>
     (int i mod eval_freq = 0 \<and> (\<forall>j < i. int j mod eval_freq = 0 \<longrightarrow> score i < score j))"

section \<open>Training\<close>

subsection \<open>Library operations, configuration and state\<close>

text \<open>
  The training code is written over the library operations it calls, which are taken as
  parameters: the key operations of \<^verbatim>\<open>jax.random\<close> (\<open>split k n i\<close> is entry \<open>i\<close> of
  \<^verbatim>\<open>jax.random.split(k, n)\<close>, \<open>uniform k rows cols lo hi i j\<close> is entry \<open>(i, j)\<close> of
  \<^verbatim>\<open>jax.random.uniform(k, shape=(rows, cols), minval=lo, maxval=hi)\<close>, \<open>permutation k n\<close> is
  \<^verbatim>\<open>jax.random.permutation(k, jnp.arange(n))\<close>); the simulated circuit
  (\<open>evaluate_circuit weights inputs observable\<close>), the linear readout and the critic;
  reverse-mode differentiation with respect to each parameter group and to the critic's
  input; the \<^verbatim>\<open>update\<close> functions of the three optimizers and \<^verbatim>\<open>eqx.apply_updates\<close> for
  each group; and the constructors called by the set-up, which may raise.
\<close>

record ('k, 'q, 'l, 'c, 'qo, 'lo, 'co) prims =
  split :: "'k \<Rightarrow> nat \<Rightarrow> nat \<Rightarrow> 'k"
  uniform :: "'k \<Rightarrow> nat \<Rightarrow> nat \<Rightarrow> real \<Rightarrow> real \<Rightarrow> nat \<Rightarrow> nat \<Rightarrow> real"
  normal :: "'k \<Rightarrow> real"
  permutation :: "'k \<Rightarrow> nat \<Rightarrow> nat list"
  evaluate_circuit :: "'q \<Rightarrow> real list \<Rightarrow> int list \<Rightarrow> real"
  generator_linear :: "'l \<Rightarrow> real list \<Rightarrow> real list"
  critic :: "'c \<Rightarrow> real list \<Rightarrow> real"
  grad_q :: "('q \<Rightarrow> real) \<Rightarrow> 'q \<Rightarrow> 'q"
  grad_l :: "('l \<Rightarrow> real) \<Rightarrow> 'l \<Rightarrow> 'l"
  grad_c :: "('c \<Rightarrow> real) \<Rightarrow> 'c \<Rightarrow> 'c"
  grad_x :: "(real list \<Rightarrow> real) \<Rightarrow> real list \<Rightarrow> real list"
  tx_gq :: "'q \<Rightarrow> 'qo \<Rightarrow> 'q \<times> 'qo"
  tx_gl :: "'l \<Rightarrow> 'lo \<Rightarrow> 'l \<times> 'lo"
  tx_c :: "'c \<Rightarrow> 'co \<Rightarrow> 'c \<times> 'co"
  apply_updates_q :: "'q \<Rightarrow> 'q \<Rightarrow> 'q"
  apply_updates_l :: "'l \<Rightarrow> 'l \<Rightarrow> 'l"
  apply_updates_c :: "'c \<Rightarrow> 'c \<Rightarrow> 'c"
  theta_init :: "'k \<Rightarrow> int \<Rightarrow> int \<Rightarrow> error + 'q"
  linear_init :: "nat \<Rightarrow> int \<Rightarrow> 'k \<Rightarrow> error + 'l"
  critic_init :: "int \<Rightarrow> 'k \<Rightarrow> error + 'c"
  tx_gq_init :: "'q \<Rightarrow> 'qo"
  tx_gl_init :: "'l \<Rightarrow> 'lo"
  tx_c_init :: "'c \<Rightarrow> 'co"

text \<open>
  The entries of \<^verbatim>\<open>config\<close> that the set-up and the step read (\<open>config_nq\<close>, \<open>config_nl\<close>
  and \<open>config_k\<close> are \<^verbatim>\<open>config.nq\<close>, \<^verbatim>\<open>config.nl\<close> and \<^verbatim>\<open>config.k\<close>).
\<close>

record config =
  config_nq :: int
  config_nl :: int
  config_k :: int
  n_shots :: int
  n_critic :: nat
  batch_size :: nat
  latent_dim :: nat
  data_dim :: int
  lambda_gp :: real

text \<open>The arguments and results of a step: three parameter groups, their optimizer states, the key.\<close>

record ('k, 'q, 'l, 'c, 'qo, 'lo, 'co) train_state =
  generator_quantum_params :: 'q
  generator_linear_params :: 'l
  critic_params :: 'c
  generator_quantum_opt_state :: 'qo
  generator_linear_opt_state :: 'lo
  critic_opt_state :: 'co
  key :: 'k

subsection \<open>The loss functions\<close>

text \<open>
  \<^verbatim>\<open>jax.random.uniform(subkey, shape=(batch_size, latent_dim), minval=-pi, maxval=pi)\<close>
\<close>

definition latent_batch ::
  "('k, 'q, 'l, 'c, 'qo, 'lo, 'co) prims \<Rightarrow> config \<Rightarrow> 'k \<Rightarrow> real list list" where
  "latent_batch P cfg k =
     map (\<lambda>i. map (\<lambda>j. uniform P k (batch_size cfg) (latent_dim cfg) (- pi) pi i j)
                [0..<latent_dim cfg])
       [0..<batch_size cfg]"

text \<open>
  \<^verbatim>\<open>jax.random.split(k, n_obs * batch_size).reshape(batch_size, n_obs, 2)\<close>: one key for
  every batch item and observable.
\<close>

definition shot_keys ::
  "('k, 'q, 'l, 'c, 'qo, 'lo, 'co) prims \<Rightarrow> config \<Rightarrow> nat \<Rightarrow> 'k \<Rightarrow> 'k list list" where
  "shot_keys P cfg n_obs k =
     map (\<lambda>b. map (\<lambda>ob. split P k (n_obs * batch_size cfg) (b * n_obs + ob)) [0..<n_obs])
       [0..<batch_size cfg]"

text \<open>
  \<^verbatim>\<open>GeneratorQuantum.__call__\<close>: the circuit is evaluated on every observable of
  \<^verbatim>\<open>get_all_k_local_observables(nq, k)\<close>. That list is \<open>obs\<close> here and below; the set-up
  computes it, and \<open>n_obs\<close> is its length.
\<close>

definition generator_quantum ::
  "('k, 'q, 'l, 'c, 'qo, 'lo, 'co) prims \<Rightarrow> int list list \<Rightarrow> 'q \<Rightarrow> real list \<Rightarrow> real list" where
  "generator_quantum P obs q x = map (evaluate_circuit P q x) obs"

text \<open>
  The generator pipeline shared by the three loss functions: circuit, shot noise on every
  expectation value with its own key, linear readout.
\<close>

definition fake_batch ::
  "('k, 'q, 'l, 'c, 'qo, 'lo, 'co) prims \<Rightarrow> config \<Rightarrow> int list list \<Rightarrow> 'q \<Rightarrow> 'l \<Rightarrow>
   real list list \<Rightarrow> 'k list list \<Rightarrow> real list list" where
  "fake_batch P cfg obs q l z keys =
     map2 (\<lambda>zi ki.
             generator_linear P l
               (map2 (\<lambda>e k. add_sampling_error (normal P) e (n_shots cfg) k)
                  (generator_quantum P obs q zi) ki))
       z keys"

text \<open>The loss of both \<^verbatim>\<open>compute_grads_generator_*\<close> functions: \<^verbatim>\<open>-fake_value.mean()\<close>.\<close>

definition generator_loss ::
  "('k, 'q, 'l, 'c, 'qo, 'lo, 'co) prims \<Rightarrow> config \<Rightarrow> int list list \<Rightarrow> 'q \<Rightarrow> 'l \<Rightarrow> 'c \<Rightarrow>
   real list list \<Rightarrow> 'k list list \<Rightarrow> real" where
  "generator_loss P cfg obs q l c z keys =
     - mean (map (critic P c) (fake_batch P cfg obs q l z keys))"

text \<open>Value and gradient with respect to the first argument, the other groups held fixed.\<close>

definition compute_grads_generator_quantum ::
  "('k, 'q, 'l, 'c, 'qo, 'lo, 'co) prims \<Rightarrow> config \<Rightarrow> int list list \<Rightarrow> 'q \<Rightarrow> 'l \<Rightarrow> 'c \<Rightarrow>
   real list list \<Rightarrow> 'k list list \<Rightarrow> real \<times> 'q" where
  "compute_grads_generator_quantum P cfg obs q l c z keys =
     (generator_loss P cfg obs q l c z keys,
      grad_q P (\<lambda>q'. generator_loss P cfg obs q' l c z keys) q)"

definition compute_grads_generator_linear ::
  "('k, 'q, 'l, 'c, 'qo, 'lo, 'co) prims \<Rightarrow> config \<Rightarrow> int list list \<Rightarrow> 'l \<Rightarrow> 'q \<Rightarrow> 'c \<Rightarrow>
   real list list \<Rightarrow> 'k list list \<Rightarrow> real \<times> 'l" where
  "compute_grads_generator_linear P cfg obs l q c z keys =
     (generator_loss P cfg obs q l c z keys,
      grad_l P (\<lambda>l'. generator_loss P cfg obs q l' c z keys) l)"

text \<open>
  \<^verbatim>\<open>real_batch * epsilon + fake_batch * (1 - epsilon)\<close>, with \<open>epsilon\<close> of shape
  \<open>(batch_size, 1)\<close>: row \<open>i\<close> is mixed with the single entry \<open>(i, 0)\<close>.
\<close>

definition data_mix ::
  "('k, 'q, 'l, 'c, 'qo, 'lo, 'co) prims \<Rightarrow> config \<Rightarrow> 'k \<Rightarrow> real list list \<Rightarrow> real list list \<Rightarrow>
   real list list" where
  "data_mix P cfg k real_batch fake =
     map (\<lambda>(i, r, f).
            map2 (\<lambda>x y. x * uniform P k (batch_size cfg) 1 0 1 i 0
                        + y * (1 - uniform P k (batch_size cfg) 1 0 1 i 0)) r f)
       (zip [0..<batch_size cfg] (zip real_batch fake))"

text \<open>\<^verbatim>\<open>jnp.linalg.norm(grads, axis=1)\<close> on one row.\<close>

definition norm2 :: "real list \<Rightarrow> real" where
  "norm2 g = sqrt (sum_list (map (\<lambda>x. x\<^sup>2) g))"

text \<open>The loss of \<^verbatim>\<open>compute_grads_critic\<close>.\<close>

definition critic_loss ::
  "('k, 'q, 'l, 'c, 'qo, 'lo, 'co) prims \<Rightarrow> config \<Rightarrow> int list list \<Rightarrow> 'c \<Rightarrow> 'q \<Rightarrow> 'l \<Rightarrow>
   real list list \<Rightarrow> real list list \<Rightarrow> 'k \<Rightarrow> 'k list list \<Rightarrow> real" where
  "critic_loss P cfg obs c q l real_batch z k keys =
     (let fake = fake_batch P cfg obs q l z keys;
          fake_value = map (critic P c) fake;
          real_value = map (critic P c) real_batch;
          grads = map (grad_x P (critic P c)) (data_mix P cfg k real_batch fake);
          grad_norm = map norm2 grads;
          gradient_penalty = mean (map (\<lambda>n. (n - 1)\<^sup>2) grad_norm)
      in - mean real_value + mean fake_value + lambda_gp cfg * gradient_penalty)"

definition compute_grads_critic ::
  "('k, 'q, 'l, 'c, 'qo, 'lo, 'co) prims \<Rightarrow> config \<Rightarrow> int list list \<Rightarrow> 'c \<Rightarrow> 'q \<Rightarrow> 'l \<Rightarrow>
   real list list \<Rightarrow> real list list \<Rightarrow> 'k \<Rightarrow> 'k list list \<Rightarrow> real \<times> 'c" where
  "compute_grads_critic P cfg obs c q l real_batch z k keys =
     (critic_loss P cfg obs c q l real_batch z k keys,
      grad_c P (\<lambda>c'. critic_loss P cfg obs c' q l real_batch z k keys) c)"

subsection \<open>The step\<close>

text \<open>
  The body of the critic loop for one real batch: the key is split in four, the critic
  and its optimizer state are replaced, and the loss is kept in \<open>loss_critic\<close>.
\<close>

definition critic_update ::
  "('k, 'q, 'l, 'c, 'qo, 'lo, 'co) prims \<Rightarrow> config \<Rightarrow> int list list \<Rightarrow> real list list \<Rightarrow>
   ('k, 'q, 'l, 'c, 'qo, 'lo, 'co) train_state \<Rightarrow>
   ('k, 'q, 'l, 'c, 'qo, 'lo, 'co) train_state \<times> real" where
  "critic_update P cfg obs real_batch st =
     (let key' = split P (key st) 4 0;
          subkey = split P (key st) 4 1;
          subsubkey = split P (key st) 4 2;
          subsubsubkey = split P (key st) 4 3;
          z = latent_batch P cfg subkey;
          keys = shot_keys P cfg (length obs) subsubsubkey;
          (loss, grads) = compute_grads_critic P cfg obs (critic_params st)
                            (generator_quantum_params st) (generator_linear_params st)
                            real_batch z subsubkey keys;
          (updates, opt') = tx_c P grads (critic_opt_state st)
      in (st\<lparr>key := key', critic_opt_state := opt',
              critic_params := apply_updates_c P (critic_params st) updates\<rparr>, loss))"

text \<open>
  The critic loop over the real batches it is given, with the variable \<open>loss_critic\<close>,
  which is unbound (\<open>None\<close>) until the first update.
\<close>

fun critic_phase ::
  "('k, 'q, 'l, 'c, 'qo, 'lo, 'co) prims \<Rightarrow> config \<Rightarrow> int list list \<Rightarrow> real list list list \<Rightarrow>
   ('k, 'q, 'l, 'c, 'qo, 'lo, 'co) train_state \<times> real option \<Rightarrow>
   ('k, 'q, 'l, 'c, 'qo, 'lo, 'co) train_state \<times> real option" where
  "critic_phase P cfg obs [] sl = sl"
| "critic_phase P cfg obs (real_batch # rest) sl =
     critic_phase P cfg obs rest
       (fst (critic_update P cfg obs real_batch (fst sl)),
        Some (snd (critic_update P cfg obs real_batch (fst sl))))"

text \<open>
  The body of \<^verbatim>\<open>train_step\<close>, joint version, for the real batches \<open>batches\<close> that
  \<^verbatim>\<open>zip(range(config.n_critic), infinite_trainloader())\<close> hands to the critic loop: the new
  state and the losses \<open>(loss_generator_quantum, loss_generator_linear, loss_critic)\<close>.
  With no critic update the name \<open>loss_critic\<close> is unbound at the \<^verbatim>\<open>return\<close>.
\<close>

definition train_step ::
  "('k, 'q, 'l, 'c, 'qo, 'lo, 'co) prims \<Rightarrow> config \<Rightarrow> int list list \<Rightarrow> real list list list \<Rightarrow>
   ('k, 'q, 'l, 'c, 'qo, 'lo, 'co) train_state \<Rightarrow>
   error + ('k, 'q, 'l, 'c, 'qo, 'lo, 'co) train_state \<times> real \<times> real \<times> real" where
  "train_step P cfg obs batches st =
     (let (st1, loss_critic) = critic_phase P cfg obs batches (st, None);
          key' = split P (key st1) 3 0;
          subkey = split P (key st1) 3 1;
          subsubkey = split P (key st1) 3 2;
          z = latent_batch P cfg subkey;
          keys = shot_keys P cfg (length obs) subsubkey;
          (loss_generator_linear, grads_linear) =
             compute_grads_generator_linear P cfg obs (generator_linear_params st1)
               (generator_quantum_params st1) (critic_params st1) z keys;
          (loss_generator_quantum, grads_quantum) =
             compute_grads_generator_quantum P cfg obs (generator_quantum_params st1)
               (generator_linear_params st1) (critic_params st1) z keys;
          (updates_linear, opt_linear) = tx_gl P grads_linear (generator_linear_opt_state st1);
          linear' = apply_updates_l P (generator_linear_params st1) updates_linear;
          (updates_quantum, opt_quantum) = tx_gq P grads_quantum (generator_quantum_opt_state st1);
          quantum' = apply_updates_q P (generator_quantum_params st1) updates_quantum
      in case loss_critic of
           None \<Rightarrow> Inl UnboundLocalError
         | Some loss \<Rightarrow>
             Inr (st1\<lparr>key := key',
                      generator_linear_opt_state := opt_linear,
                      generator_linear_params := linear',
                      generator_quantum_opt_state := opt_quantum,
                      generator_quantum_params := quantum'\<rparr>,
                  loss_generator_quantum, loss_generator_linear, loss))"

subsection \<open>The data loader\<close>

text \<open>
  The generator \<^verbatim>\<open>dataloader\<close> is not started, or suspended at its \<^verbatim>\<open>yield\<close> with its
  key, the permutation of the pass and the bounds \<^verbatim>\<open>start\<close> and \<^verbatim>\<open>end\<close> of the batch it
  has just yielded (\<open>stop\<close> below is \<^verbatim>\<open>end\<close>), or closed.
\<close>

datatype 'k loader_state = NotStarted 'k | Suspended 'k "nat list" nat nat | Closed

text \<open>
  \<^verbatim>\<open>data[batch_perm]\<close>; an index beyond the last row is clamped, as JAX indexing does.
\<close>

definition take_rows :: "real list list \<Rightarrow> nat list \<Rightarrow> real list list" where
  "take_rows data idx = map (\<lambda>i. data ! min i (length data - 1)) idx"

text \<open>
  The outer \<^verbatim>\<open>while True\<close> of the generator, from its top to the first \<^verbatim>\<open>yield\<close>: the key
  is split, the indices are permuted, and the first batch of the pass is yielded if
  \<^verbatim>\<open>end < dataset_size\<close>; otherwise the inner loop is skipped and the next pass begins. For
  a batch size that is not below the size of the data set no pass ever yields, and the
  generator does not return (\<open>None\<close>).
\<close>

partial_function (option) enter_pass ::
  "('k, 'q, 'l, 'c, 'qo, 'lo, 'co) prims \<Rightarrow> real list list \<Rightarrow> nat \<Rightarrow> 'k \<Rightarrow>
   (real list list \<times> 'k loader_state) option" where
  "enter_pass P data B lkey =
     (if B < length data
      then Some (take_rows data (take B (permutation P (split P lkey 2 1) (length data))),
                 Suspended (split P lkey 2 0) (permutation P (split P lkey 2 1) (length data)) 0 B)
      else enter_pass P data B (split P lkey 2 0))"

text \<open>
  The next batch that \<^verbatim>\<open>infinite_trainloader\<close> passes on from \<^verbatim>\<open>dataloader\<close>: a suspended
  generator resumes after its \<^verbatim>\<open>yield\<close> with \<^verbatim>\<open>start = end; end = start + batch_size\<close>
  and tests \<^verbatim>\<open>end < dataset_size\<close> again. From a closed generator \<^verbatim>\<open>yield from\<close> returns
  at once with no batch, and the \<^verbatim>\<open>while True\<close> around it repeats that forever.
\<close>

definition loader_next ::
  "('k, 'q, 'l, 'c, 'qo, 'lo, 'co) prims \<Rightarrow> real list list \<Rightarrow> nat \<Rightarrow> 'k loader_state \<Rightarrow>
   (real list list \<times> 'k loader_state) option" where
  "loader_next P data B ls =
     (case ls of
        NotStarted lkey \<Rightarrow> enter_pass P data B lkey
      | Suspended lkey perm start stop \<Rightarrow>
          (if stop + B < length data
           then Some (take_rows data (take B (drop stop perm)), Suspended lkey perm stop (stop + B))
           else enter_pass P data B lkey)
      | Closed \<Rightarrow> None)"

text \<open>
  \<^verbatim>\<open>zip(range(n), infinite_trainloader())\<close>: the range is asked first, so exactly \<open>n\<close>
  batches are taken from the loader, which \<^verbatim>\<open>infinite_trainloader\<close> only passes on.
\<close>

fun pull ::
  "('k, 'q, 'l, 'c, 'qo, 'lo, 'co) prims \<Rightarrow> real list list \<Rightarrow> nat \<Rightarrow> nat \<Rightarrow> 'k loader_state \<Rightarrow>
   (real list list list \<times> 'k loader_state) option" where
  "pull P data B 0 ls = Some ([], ls)"
| "pull P data B (Suc n) ls =
     (case loader_next P data B ls of
        None \<Rightarrow> None
      | Some (b, ls') \<Rightarrow>
          (case pull P data B n ls' of
             None \<Rightarrow> None
           | Some (bs, ls'') \<Rightarrow> Some (b # bs, ls'')))"

text \<open>
  The end of the \<^verbatim>\<open>for\<close> loop over \<^verbatim>\<open>zip(range(n), infinite_trainloader())\<close>: the generator
  object that \<^verbatim>\<open>infinite_trainloader()\<close> made is dropped and thereby closed. If it had been
  started it is suspended in \<^verbatim>\<open>yield from dataloader\<close>, and the close is passed on to
  \<^verbatim>\<open>dataloader\<close>.
\<close>

definition release :: "'k loader_state \<Rightarrow> 'k loader_state" where
  "release ls = (case ls of NotStarted lkey \<Rightarrow> NotStarted lkey | _ \<Rightarrow> Closed)"

subsection \<open>The compiled step and the training loop\<close>

text \<open>
  \<^verbatim>\<open>train_step\<close> is decorated with \<^verbatim>\<open>eqx.filter_jit\<close> and reads the loader as a variable of
  the enclosing function, not as an argument. Its Python body therefore runs once, when
  the first call traces it: the batches that the loader yields then are constants of the
  compiled step, and no later call touches the loader. A run of \<^verbatim>\<open>train\<close> carries the
  arguments of the step, the state of the loader, and the batches of the trace (\<open>None\<close>
  before the first call).
\<close>

record ('k, 'q, 'l, 'c, 'qo, 'lo, 'co) run_state =
  step_state :: "('k, 'q, 'l, 'c, 'qo, 'lo, 'co) train_state"
  loader :: "'k loader_state"
  traced :: "real list list list option"

text \<open>
  A call of the compiled step. The result is \<open>None\<close> when the call does not return: the
  loader of the trace never yields.
\<close>

definition jit_train_step ::
  "('k, 'q, 'l, 'c, 'qo, 'lo, 'co) prims \<Rightarrow> config \<Rightarrow> int list list \<Rightarrow> real list list \<Rightarrow>
   ('k, 'q, 'l, 'c, 'qo, 'lo, 'co) run_state \<Rightarrow>
   (error + ('k, 'q, 'l, 'c, 'qo, 'lo, 'co) run_state \<times> real \<times> real \<times> real) option" where
  "jit_train_step P cfg obs data rs =
     (case traced rs of
        Some batches \<Rightarrow>
          Some (case train_step P cfg obs batches (step_state rs) of
                  Inl e \<Rightarrow> Inl e
                | Inr (st, losses) \<Rightarrow> Inr (rs\<lparr>step_state := st\<rparr>, losses))
      | None \<Rightarrow>
          (case pull P data (batch_size cfg) (n_critic cfg) (loader rs) of
             None \<Rightarrow> None
           | Some (batches, ls) \<Rightarrow>
               Some (case train_step P cfg obs batches (step_state rs) of
                       Inl e \<Rightarrow> Inl e
                     | Inr (st, losses) \<Rightarrow>
                         Inr (rs\<lparr>step_state := st, loader := release ls,
                                 traced := Some batches\<rparr>,
                              losses))))"

text \<open>
  One iteration of the loop of \<^verbatim>\<open>train\<close>, without the evaluation and the checkpoints:
  \<^verbatim>\<open>key, subkey, subsubkey = jax.random.split(key, 3)\<close>, then the step with the new key.
\<close>

definition train_iteration ::
  "('k, 'q, 'l, 'c, 'qo, 'lo, 'co) prims \<Rightarrow> config \<Rightarrow> int list list \<Rightarrow> real list list \<Rightarrow>
   ('k, 'q, 'l, 'c, 'qo, 'lo, 'co) run_state \<Rightarrow>
   (error + ('k, 'q, 'l, 'c, 'qo, 'lo, 'co) run_state) option" where
  "train_iteration P cfg obs data rs =
     (case jit_train_step P cfg obs data
             (rs\<lparr>step_state := (step_state rs)\<lparr>key := split P (key (step_state rs)) 3 0\<rparr>\<rparr>) of
        None \<Rightarrow> None
      | Some (Inl e) \<Rightarrow> Some (Inl e)
      | Some (Inr (rs', losses)) \<Rightarrow> Some (Inr rs'))"

fun train_iters ::
  "('k, 'q, 'l, 'c, 'qo, 'lo, 'co) prims \<Rightarrow> config \<Rightarrow> int list list \<Rightarrow> real list list \<Rightarrow> nat \<Rightarrow>
   ('k, 'q, 'l, 'c, 'qo, 'lo, 'co) run_state \<Rightarrow>
   (error + ('k, 'q, 'l, 'c, 'qo, 'lo, 'co) run_state) option" where
  "train_iters P cfg obs data 0 rs = Some (Inr rs)"
| "train_iters P cfg obs data (Suc n) rs =
     (case train_iteration P cfg obs data rs of
        None \<Rightarrow> None
      | Some (Inl e) \<Rightarrow> Some (Inl e)
      | Some (Inr rs') \<Rightarrow> train_iters P cfg obs data n rs')"

text \<open>
  The set-up of \<^verbatim>\<open>train\<close>, from the first key to the optimizer states: the key of the
  seed is split in five, the loader is created (a generator, so nothing of it runs yet),
  the circuit weights are drawn, the observables are enumerated and counted, the linear
  readout and the critic are constructed, and the optimizers are initialised. The result
  is the list of observables and the state in which the loop starts.
\<close>

definition train_setup ::
  "('k, 'q, 'l, 'c, 'qo, 'lo, 'co) prims \<Rightarrow> config \<Rightarrow> 'k \<Rightarrow>
   error + int list list \<times> ('k, 'q, 'l, 'c, 'qo, 'lo, 'co) run_state" where
  "train_setup P cfg seed_key =
     (case theta_init P (split P seed_key 5 1) (config_nl cfg) (config_nq cfg) of
        Inl e \<Rightarrow> Inl e
      | Inr q \<Rightarrow>
     (case get_all_k_local_observables (config_nq cfg) (config_k cfg) of
        Inl e \<Rightarrow> Inl e
      | Inr obs \<Rightarrow>
     (case linear_init P (length obs) (data_dim cfg) (split P seed_key 5 2) of
        Inl e \<Rightarrow> Inl e
      | Inr l \<Rightarrow>
     (case critic_init P (data_dim cfg) (split P seed_key 5 3) of
        Inl e \<Rightarrow> Inl e
      | Inr c \<Rightarrow>
          Inr (obs,
               \<lparr>step_state =
                  \<lparr>generator_quantum_params = q, generator_linear_params = l,
                   critic_params = c,
                   generator_quantum_opt_state = tx_gq_init P q,
                   generator_linear_opt_state = tx_gl_init P l,
                   critic_opt_state = tx_c_init P c,
                   key = split P seed_key 5 0\<rparr>,
                loader = NotStarted (split P seed_key 5 4),
                traced = None\<rparr>)))))"

text \<open>
  \<^verbatim>\<open>train\<close> up to and including the first \<open>n\<close> iterations of its loop, for the key \<open>seed_key\<close>
  of the seed and the data set \<open>data\<close>.
\<close>

definition train ::
  "('k, 'q, 'l, 'c, 'qo, 'lo, 'co) prims \<Rightarrow> config \<Rightarrow> 'k \<Rightarrow> real list list \<Rightarrow> nat \<Rightarrow>
   (error + ('k, 'q, 'l, 'c, 'qo, 'lo, 'co) run_state) option" where
  "train P cfg seed_key data n =
     (case train_setup P cfg seed_key of
        Inl e \<Rightarrow> Some (Inl e)
      | Inr (obs, rs) \<Rightarrow> train_iters P cfg obs data n rs)"

subsection \<open>The keys that the stochastic operations consume\<close>

text \<open>
  The stochastic operations of \<^verbatim>\<open>train\<close>: the constructors of the set-up, the shuffle of
  the loader, the uniform latent batch, the uniform \<open>epsilon\<close> of the gradient penalty and
  the normal draw of the shot noise. A draw is an operation together with the key it is
  given.
\<close>

datatype draw = Initialisation | Shuffle | LatentSample | PenaltyEpsilon | ShotNoise









subsection \<open>An instance\<close>

text \<open>
  A small instance of the library operations, for running the code: a key is the list of
  split indices that lead to it; every parameter group is one real; the circuit value of
  an observable is the weight times the sum of its indices over four; the readout
  multiplies the sum of its inputs by its weight, and so does the critic; a gradient is
  the difference of the function one unit further and here; every optimizer returns the
  negated gradient as the update and counts its steps; uniform draws are the midpoint of
  their range, normal draws are 0; the loader's permutation reverses the indices.
\<close>

definition example_prims :: "(nat list, real, real, real, nat, nat, nat) prims" where
  "example_prims =
     \<lparr>split = (\<lambda>k n i. k @ [i]),
      uniform = (\<lambda>k rows cols lo hi i j. (lo + hi) / 2),
      normal = (\<lambda>k. 0),
      permutation = (\<lambda>k n. rev [0..<n]),
      evaluate_circuit = (\<lambda>q x ob. q * real_of_int (sum_list ob) / 4),
      generator_linear = (\<lambda>l x. [l * sum_list x]),
      critic = (\<lambda>c x. c * sum_list x),
      grad_q = (\<lambda>f q. f (q + 1) - f q),
      grad_l = (\<lambda>f l. f (l + 1) - f l),
      grad_c = (\<lambda>f c. f (c + 1) - f c),
      grad_x = (\<lambda>f x. map (\<lambda>i. f (x[i := x ! i + 1]) - f x) [0..<length x]),
      tx_gq = (\<lambda>g s. (- g, Suc s)),
      tx_gl = (\<lambda>g s. (- g, Suc s)),
      tx_c = (\<lambda>g s. (- g, Suc s)),
      apply_updates_q = (\<lambda>p u. p + u),
      apply_updates_l = (\<lambda>p u. p + u),
      apply_updates_c = (\<lambda>p u. p + u),
      theta_init = (\<lambda>k nl nq. if nl < 0 \<or> 2 * nq - 1 < 0 then Inl ValueError else Inr 1),
      linear_init = (\<lambda>n d k. if n = 0 then Inl ZeroDivisionError else Inr 1),
      critic_init = (\<lambda>d k. Inr 1),
      tx_gq_init = (\<lambda>q. 0),
      tx_gl_init = (\<lambda>l. 0),
      tx_c_init = (\<lambda>c. 0)\<rparr>"

definition example_config :: config where
  "example_config =
     \<lparr>config_nq = 1, config_nl = 1, config_k = 1, n_shots = 4, n_critic = 1, batch_size = 1,
      latent_dim = 1, data_dim = 1, lambda_gp = 1\<rparr>"

definition example_data :: "real list list" where
  "example_data = [[1], [2], [3]]"

definition example_state :: "(nat list, real, real, real, nat, nat, nat) train_state" where
  "example_state =
     \<lparr>generator_quantum_params = 1, generator_linear_params = 1, critic_params = 1,
      generator_quantum_opt_state = 0, generator_linear_opt_state = 0, critic_opt_state = 0,
      key = [0]\<rparr>"

section \<open>Properties of the observable enumeration\<close>



lemma set_product_repeat: "set (product_repeat xs n) = {t. length t = n \<and> set t \<subseteq> set xs}"
proof (induction n)
  case 0
  then show ?case by auto
next
  case (Suc n)
  show ?case
  proof (rule set_eqI)
    fix t
    show "t \<in> set (product_repeat xs (Suc n)) \<longleftrightarrow> t \<in> {t. length t = Suc n \<and> set t \<subseteq> set xs}"
      using Suc by (cases t) auto
  qed
qed

lemma sorted_wrt_concat_map_Cons:
  fixes xs :: "('a::order) list"
  assumes "sorted_wrt (<) xs" "sorted_wrt (<) P"
  shows "sorted_wrt (<) (concat (map (\<lambda>x. map ((#) x) P) xs))"
  using assms
proof (induction xs)
  case Nil
  then show ?case by simp
next
  case (Cons a xs)
  then show ?case
    by (auto simp: sorted_wrt_append sorted_wrt_map)
qed

lemma sorted_product_repeat:
  fixes xs :: "('a::order) list"
  shows "sorted_wrt (<) xs \<Longrightarrow> sorted_wrt (<) (product_repeat xs n)"
  by (induction n) (simp_all add: sorted_wrt_concat_map_Cons)


lemma support_Cons: "support (x # t) = (if x = 0 then support t else Suc (support t))"
  by (simp add: support_def)

lemma count_support:
  "length (filter (\<lambda>t. support t = j) (product_repeat [0, 1, 2, 3] n)) = (n choose j) * 3 ^ j"
proof (induction n arbitrary: j)
  case 0
  then show ?case by (cases j) (auto simp: support_def)
next
  case (Suc n)
  show ?case
  proof (cases j)
    case 0
    then show ?thesis using Suc[of 0] by (simp add: filter_map o_def support_Cons)
  next
    case (Suc i)
    then show ?thesis using Suc.IH[of i] Suc.IH[of "Suc i"]
      by (simp add: filter_map o_def support_Cons algebra_simps)
  qed
qed

lemma length_filter_range:
  fixes f :: "'a \<Rightarrow> nat"
  shows "length (filter (\<lambda>t. 1 \<le> f t \<and> f t \<le> k) xs) = (\<Sum>j = 1..k. length (filter (\<lambda>t. f t = j) xs))"
proof (induction k)
  case 0
  then show ?case by simp
next
  case (Suc k)
  have "length (filter (\<lambda>t. 1 \<le> f t \<and> f t \<le> Suc k) xs) =
        length (filter (\<lambda>t. 1 \<le> f t \<and> f t \<le> k) xs) + length (filter (\<lambda>t. f t = Suc k) xs)"
    by (induction xs) auto
  then show ?case using Suc by simp
qed

lemma n_zero_support: "n_zero t = int (length t) - int (support t)"
  unfolding n_zero_def support_def
  using sum_length_filter_compl[of "\<lambda>x. x = 0" t] by simp



lemma filter_pred_eq:
  assumes "0 \<le> k" "k \<le> nq" "length t = nat nq"
  shows "(n_zero t \<ge> nq - k \<and> n_zero t < nq) \<longleftrightarrow> (1 \<le> support t \<and> support t \<le> nat k)"
  using assms by (auto simp: n_zero_support)

text \<open>
  Claim C4: for \<open>0 \<le> k \<le> nq\<close> the enumerator returns exactly the index tuples of length
  \<open>nq\<close> over \<open>{0, 1, 2, 3}\<close> with between 1 and \<open>k\<close> non-zero sites, without
  duplicates and without the all-zero tuple; their number is the sum over \<open>j = 1..k\<close> of
  \<open>(nq choose j) * 3 ^ j\<close>, and they come in strictly ascending lexicographic order.
  The enumerator is a function of \<open>nq\<close> and \<open>k\<close> alone, so every call returns this list.
\<close>

theorem get_all_k_local_observables_spec:
  assumes "0 \<le> k" "k \<le> nq"
  shows "\<exists>obs. get_all_k_local_observables nq k = Inr obs
     \<and> set obs = {t. length t = nat nq \<and> set t \<subseteq> {0, 1, 2, 3} \<and> 1 \<le> support t \<and> int (support t) \<le> k}
     \<and> distinct obs
     \<and> replicate (nat nq) 0 \<notin> set obs
     \<and> length obs = (\<Sum>j = 1..nat k. (nat nq choose j) * 3 ^ j)
     \<and> sorted_wrt (<) obs"
proof -
  define P where "P = product_repeat [0, 1, 2, 3 :: int] (nat nq)"
  define obs where "obs = filter (\<lambda>t. 1 \<le> support t \<and> support t \<le> nat k) P"
  have len: "\<forall>t \<in> set P. length t = nat nq"
    by (simp add: P_def set_product_repeat)
  have "filter (\<lambda>t. n_zero t \<ge> nq - k \<and> n_zero t < nq) P = obs"
    unfolding obs_def using len filter_pred_eq[OF assms] by (intro filter_cong) auto
  then have eq: "get_all_k_local_observables nq k = Inr obs"
    using assms by (simp add: get_all_k_local_observables_def P_def)
  have st: "set obs = {t. length t = nat nq \<and> set t \<subseteq> {0, 1, 2, 3} \<and> 1 \<le> support t \<and> int (support t) \<le> k}"
    using assms by (auto simp: obs_def P_def set_product_repeat)
  have srt: "sorted_wrt (<) obs"
    unfolding obs_def P_def by (intro sorted_wrt_filter sorted_product_repeat) simp
  have dst: "distinct obs"
    using srt by (simp add: strict_sorted_iff)
  have "support (replicate (nat nq) 0) = 0"
    by (simp add: support_def)
  then have nid: "replicate (nat nq) 0 \<notin> set obs"
    by (simp add: obs_def)
  have cnt: "length obs = (\<Sum>j = 1..nat k. (nat nq choose j) * 3 ^ j)"
    unfolding obs_def P_def by (subst length_filter_range) (simp only: count_support)
  show ?thesis using eq st dst nid cnt srt by blast
qed

text \<open>Claim C4 at two qubits and locality 1: six observables.\<close>

theorem get_all_k_local_observables_spec_witness:
  "(0::int) \<le> 1 \<and> (1::int) \<le> 2 \<and> get_all_k_local_observables 2 1 = Inr [[0, 1], [0, 2], [0, 3], [1, 0], [2, 0], [3, 0]]
    \<and> (\<Sum>j = 1..nat 1. (nat 2 choose j) * 3 ^ j) = (6::nat)"
  using get_all_k_local_observables_spec[of 1 2]
  by (simp add: get_all_k_local_observables_def n_zero_def numeral_2_eq_2)

section \<open>Properties of the KLD estimator\<close>


lemma length_fulldist: "length (fulldist pts qs k) = length qs"
  by (simp add: fulldist_def)

lemma nth_fulldist:
  "i < length qs \<Longrightarrow> fulldist pts qs k ! i = map sqrt (take k (sort (map (sqdist (qs ! i)) pts)))"
  by (simp add: fulldist_def)

lemma sorted_dist_row: "sorted (map sqrt (take k (sort (xs :: real list))))"
proof -
  have "sorted (take k (sort xs))"
    by (simp add: sorted_wrt_take)
  then show ?thesis
    unfolding sorted_map by (rule sorted_wrt_mono_rel[rotated]) simp
qed

lemma searchsorted_right_gt:
  assumes "sorted a" "j < length a" "a ! j \<le> v"
  shows "j < searchsorted_right a v"
proof -
  have "\<And>i. i < Suc j \<Longrightarrow> a ! i \<le> v"
  proof -
    fix i assume "i < Suc j"
    then have "a ! i \<le> a ! j"
      using assms(1,2) by (intro sorted_nth_mono) auto
    then show "a ! i \<le> v" using assms(3) by simp
  qed
  then have "Suc j \<le> length (takeWhile (\<lambda>x. x \<le> v) a)"
    using assms(2) by (intro length_takeWhile_less_P_nth) auto
  then show ?thesis by (simp add: searchsorted_right_def)
qed

lemma length_kld_rhoi: "length (kld_rhoi s1) = length s1"
  by (simp add: kld_rhoi_def length_fulldist)

lemma length_kld_nui: "length (kld_nui s1 s2) = length s1"
  by (simp add: kld_nui_def length_fulldist)

lemma nth_kld_epsilon:
  "i < length s1 \<Longrightarrow>
   kld_epsilon s1 s2 ! i = max (fulldist s1 s1 (length s1) ! i ! 1) (fulldist s2 s1 (length s2) ! i ! 0)"
  by (simp add: kld_epsilon_def kld_rhoi_def kld_nui_def length_fulldist)

lemma length_kld_li: "length (kld_li s1 s2) = length s2"
  by (simp add: kld_li_def)

lemma length_kld_ki: "length (kld_ki s1 s2) = length s1"
  by (simp add: kld_ki_def)

lemma kld_li_ge1:
  assumes "2 \<le> length s1" "i < length s2" "i < length s1"
  shows "1 \<le> kld_li s1 s2 ! i"
proof -
  let ?row = "fulldist s1 s1 (length s1) ! i"
  have row: "?row = map sqrt (take (length s1) (sort (map (sqdist (s1 ! i)) s1)))"
    using assms(3) by (rule nth_fulldist)
  have "sorted ?row" unfolding row by (rule sorted_dist_row)
  moreover have "1 < length ?row" unfolding row using assms(1) by simp
  moreover have "?row ! 1 \<le> kld_epsilon s1 s2 ! i"
    using assms(3) by (simp add: nth_kld_epsilon)
  ultimately have "1 < searchsorted_right ?row (kld_epsilon s1 s2 ! i)"
    by (rule searchsorted_right_gt)
  then show ?thesis using assms(2) by (simp add: kld_li_def)
qed

lemma kld_ki_ge1:
  assumes "1 \<le> length s2" "i < length s1"
  shows "1 \<le> kld_ki s1 s2 ! i"
proof -
  let ?row = "fulldist s2 s1 (length s2) ! i"
  have row: "?row = map sqrt (take (length s2) (sort (map (sqdist (s1 ! i)) s2)))"
    using assms(2) by (rule nth_fulldist)
  have "sorted ?row" unfolding row by (rule sorted_dist_row)
  moreover have "0 < length ?row" unfolding row using assms(1) by (cases s2) simp_all
  moreover have "?row ! 0 \<le> kld_epsilon s1 s2 ! i"
    using assms(2) by (simp add: nth_kld_epsilon)
  ultimately have "0 < searchsorted_right ?row (kld_epsilon s1 s2 ! i)"
    by (rule searchsorted_right_gt)
  then show ?thesis using assms(2) by (simp add: kld_ki_def)
qed

text \<open>
  Claim C10: for samples of equal size \<open>n = m \<ge> 2\<close>, every count \<open>l_i\<close> and every
  count \<open>k_i\<close> that the estimator computes is at least 1, so digamma is never evaluated
  at 0.
\<close>

theorem kld_counts_positive:
  assumes "length s1 = length s2" "2 \<le> length s1"
  shows "(\<forall>l \<in> set (kld_li s1 s2). 1 \<le> l) \<and> (\<forall>k \<in> set (kld_ki s1 s2). 1 \<le> k)"
proof
  show "\<forall>l \<in> set (kld_li s1 s2). 1 \<le> l"
    using assms kld_li_ge1[of s1 _ s2] by (auto simp: in_set_conv_nth length_kld_li)
  show "\<forall>k \<in> set (kld_ki s1 s2). 1 \<le> k"
    using assms kld_ki_ge1[of s2 _ s1] by (auto simp: in_set_conv_nth length_kld_ki)
qed



lemma kld_estimator_no_shape_error:
  assumes "2 \<le> length s1" "1 \<le> length s2" "length s2 \<le> length s1"
    and "\<forall>x \<in> set s1 \<union> set s2. length x = d"
  shows "kld_estimator digamma s1 s2 =
           (case np_sub (map digamma (kld_li s1 s2)) (map digamma (kld_ki s1 s2)) of
              Inl e \<Rightarrow> Inl e
            | Inr ds \<Rightarrow> Inr (mean ds + ln (real (length s2) / real (length s1 - 1))))"
proof -
  have ne1: "s1 \<noteq> []" using assms(1) by auto
  have ne2: "s2 \<noteq> []" using assms(2) by auto
  have "hd s1 \<in> set s1" "hd s2 \<in> set s2" using ne1 ne2 by simp_all
  then have d: "length (hd s1) = d" "length (hd s2) = d" using assms(4) by blast+
  have r1: "ragged s1 = False" "ragged s2 = False"
    using assms(4) d by (simp_all add: ragged_def)
  have c0: "(length (hd s2) \<noteq> length (hd s1)) = False" using d by simp
  have c1: "(length s1 = 0) = False" using assms(1) by auto
  have c2: "(length s2 = 0) = False" using assms(2) by auto
  have c3: "(length s1 < 2) = False" using assms(1) by auto
  have c4: "(length s1 < length s2) = False" using assms(3) by auto
  show ?thesis
    unfolding kld_estimator_def Let_def r1 c0 c1 c2 c3 c4 by simp
qed

lemma kld_estimator_equal_sizes:
  assumes "length s1 = length s2" "2 \<le> length s1" "\<forall>x \<in> set s1 \<union> set s2. length x = d"
  shows "kld_estimator digamma s1 s2 =
           Inr (mean (map2 (\<lambda>l k. digamma l - digamma k) (kld_li s1 s2) (kld_ki s1 s2))
                + ln (real (length s2) / real (length s1 - 1)))"
proof -
  have len: "length (map digamma (kld_li s1 s2)) = length (map digamma (kld_ki s1 s2))"
    using assms(1) by (simp add: length_kld_li length_kld_ki)
  have sub: "np_sub (map digamma (kld_li s1 s2)) (map digamma (kld_ki s1 s2)) =
             Inr (map2 (\<lambda>l k. digamma l - digamma k) (kld_li s1 s2) (kld_ki s1 s2))"
    unfolding np_sub_def using len by (simp add: zip_map_map split_beta)
  have "1 \<le> length s2" "length s2 \<le> length s1" using assms(1,2) by auto
  from kld_estimator_no_shape_error[OF assms(2) this assms(3)] show ?thesis
    by (simp only: sub sum.case)
qed

lemma kld_estimator_size_mismatch:
  assumes "1 < length s2" "length s2 < length s1" "\<forall>x \<in> set s1 \<union> set s2. length x = d"
  shows "kld_estimator digamma s1 s2 = Inl ValueError"
proof -
  have sub: "np_sub (map digamma (kld_li s1 s2)) (map digamma (kld_ki s1 s2)) = Inl ValueError"
    unfolding np_sub_def using assms(1,2) by (simp add: length_kld_li length_kld_ki)
  have "2 \<le> length s1" "1 \<le> length s2" "length s2 \<le> length s1" using assms(1,2) by auto
  from kld_estimator_no_shape_error[OF this assms(3)] show ?thesis
    by (simp only: sub sum.case)
qed

lemma kld_estimator_index_error:
  assumes "length s1 < length s2"
  shows "\<exists>e. kld_estimator digamma s1 s2 = Inl e"
proof -
  have c4: "(length s1 < length s2) = True" using assms by simp
  show ?thesis
    unfolding kld_estimator_def Let_def c4 by (simp only: if_True if_False split: if_splits) auto
qed




lemma sqdist_self: "sqdist x x = 0"
  unfolding sqdist_def by (induction x) simp_all

lemma sqdist_nonneg: "0 \<le> sqdist x y"
  unfolding sqdist_def by (rule sum_list_nonneg) auto

lemma two_zeros_filter:
  assumes "i < j" "j < length ds" "ds ! i = (0::real)" "ds ! j = 0"
  shows "2 \<le> length (filter (\<lambda>x. x = 0) ds)"
proof -
  have i: "i < length ds" using assms(1,2) by simp
  have split: "ds = take i ds @ ds ! i # drop (Suc i) ds"
    using i by (rule id_take_nth_drop)
  have "drop (Suc i) ds ! (j - Suc i) = ds ! j"
    using assms(1,2) by simp
  moreover have "j - Suc i < length (drop (Suc i) ds)"
    using assms(1,2) by simp
  ultimately have "0 \<in> set (drop (Suc i) ds)"
    using assms(4) by (metis nth_mem)
  then have "filter (\<lambda>x. x = 0) (drop (Suc i) ds) \<noteq> []"
    by (simp add: filter_empty_conv)
  then have "1 \<le> length (filter (\<lambda>x. x = 0) (drop (Suc i) ds))"
    by (simp add: Suc_le_eq)
  moreover have "length (filter (\<lambda>x. x = 0) ds) =
      length (filter (\<lambda>x. x = 0) (take i ds)) + 1 + length (filter (\<lambda>x. x = 0) (drop (Suc i) ds))"
    by (subst split) (simp add: assms(3))
  ultimately show ?thesis by simp
qed

lemma sort_second_zero:
  assumes "\<forall>x \<in> set ds. (0::real) \<le> x" "i < j" "j < length ds" "ds ! i = 0" "ds ! j = 0"
  shows "sort ds ! 1 = 0"
proof (rule ccontr)
  assume nz: "sort ds ! 1 \<noteq> 0"
  have len: "2 \<le> length (sort ds)" using assms(2,3) by simp
  then obtain y0 y1 rest where ys: "sort ds = y0 # y1 # rest"
    by (cases "sort ds"; cases "tl (sort ds)") auto
  have srt: "sorted (y0 # y1 # rest)" using ys by (metis sorted_sort)
  have "y1 \<in> set (sort ds)" unfolding ys by simp
  then have "y1 \<in> set ds" by simp
  then have "0 < y1" using nz ys assms(1) by fastforce
  then have "\<forall>x \<in> set (y1 # rest). x \<noteq> 0" using srt by auto
  then have "filter (\<lambda>x. x = 0) (y1 # rest) = []"
    by (simp add: filter_empty_conv)
  then have "length (filter (\<lambda>x. x = 0) (sort ds)) \<le> 1"
    unfolding ys by simp
  moreover have "length (filter (\<lambda>x. x = 0) (sort ds)) = length (filter (\<lambda>x. x = 0) ds)"
    by (simp add: filter_sort)
  ultimately show False
    using two_zeros_filter[OF assms(2-5)] by simp
qed

lemma kld_rhoi_duplicate:
  assumes "i < j" "j < length s1" "s1 ! i = s1 ! j"
  shows "kld_rhoi s1 ! i = 0"
proof -
  let ?ds = "map (sqdist (s1 ! i)) s1"
  have i: "i < length s1" using assms(1,2) by simp
  have "sort ?ds ! 1 = 0"
  proof (rule sort_second_zero[OF _ assms(1)])
    show "\<forall>x \<in> set ?ds. 0 \<le> x" by (auto simp: sqdist_nonneg)
    show "j < length ?ds" using assms(2) by simp
    show "?ds ! i = 0" using i by (simp add: sqdist_self)
    show "?ds ! j = 0" using assms(2,3) by (simp add: sqdist_self)
  qed
  moreover have "kld_rhoi s1 ! i = sqrt (sort ?ds ! 1)"
    using i assms(1,2) by (simp add: kld_rhoi_def length_fulldist nth_fulldist)
  ultimately show ?thesis by simp
qed



lemma searchsorted_right_count:
  "sorted a \<Longrightarrow> searchsorted_right a v = length (filter (\<lambda>x. x \<le> v) a)"
  unfolding searchsorted_right_def
proof (induction a)
  case Nil
  then show ?case by simp
next
  case (Cons x xs)
  show ?case
  proof (cases "x \<le> v")
    case True
    then show ?thesis using Cons by simp
  next
    case False
    then have "\<forall>y \<in> set xs. \<not> y \<le> v" using Cons.prems by auto
    then have "filter (\<lambda>x. x \<le> v) xs = []" by (simp add: filter_empty_conv)
    then show ?thesis using False by simp
  qed
qed

lemma dist_row_count:
  "length (filter (\<lambda>x. x \<le> v) (map sqrt (take (length pts) (sort (map (sqdist q) pts))))) =
   card {j. j < length pts \<and> euclidean q (pts ! j) \<le> v}"
proof -
  have "take (length pts) (sort (map (sqdist q) pts)) = sort (map (sqdist q) pts)"
    by simp
  then have "length (filter (\<lambda>x. x \<le> v) (map sqrt (take (length pts) (sort (map (sqdist q) pts))))) =
        length (filter ((\<lambda>x. x \<le> v) \<circ> sqrt) (sort (map (sqdist q) pts)))"
    by (simp only: filter_map length_map)
  also have "\<dots> = length (filter ((\<lambda>x. x \<le> v) \<circ> sqrt) (map (sqdist q) pts))"
    by (simp only: filter_sort length_sort)
  also have "\<dots> = length (filter (\<lambda>y. euclidean q y \<le> v) pts)"
    by (simp add: filter_map o_def euclidean_def)
  also have "\<dots> = card {j. j < length pts \<and> euclidean q (pts ! j) \<le> v}"
    by (rule length_filter_conv_card)
  finally show ?thesis .
qed

lemma kld_ki_count:
  assumes "i < length s1"
  shows "kld_ki s1 s2 ! i =
         int (card {j. j < length s2 \<and> euclidean (s1 ! i) (s2 ! j) \<le> kld_epsilon s1 s2 ! i})"
proof -
  have "kld_ki s1 s2 ! i =
        int (searchsorted_right (fulldist s2 s1 (length s2) ! i) (kld_epsilon s1 s2 ! i))"
    using assms by (simp add: kld_ki_def)
  then show ?thesis
    using assms by (simp only: nth_fulldist searchsorted_right_count[OF sorted_dist_row] dist_row_count)
qed

lemma kld_li_count:
  assumes "i < length s1" "i < length s2"
  shows "kld_li s1 s2 ! i =
         int (card {j. j < length s1 \<and> euclidean (s1 ! i) (s1 ! j) \<le> kld_epsilon s1 s2 ! i}) - 1"
proof -
  have "kld_li s1 s2 ! i =
        int (searchsorted_right (fulldist s1 s1 (length s1) ! i) (kld_epsilon s1 s2 ! i)) - 1"
    using assms by (simp add: kld_li_def)
  then show ?thesis
    using assms by (simp only: nth_fulldist searchsorted_right_count[OF sorted_dist_row] dist_row_count)
qed



lemma sorted_nth0_Min:
  fixes ys :: "real list"
  assumes "sorted ys" "ys \<noteq> []"
  shows "ys ! 0 = Min (set ys)"
proof -
  obtain y rest where ys: "ys = y # rest" using assms(2) by (cases ys) auto
  have "Min (set ys) = y"
    unfolding ys using assms(1) ys by (intro Min_eqI) auto
  then show ?thesis by (simp add: ys)
qed

lemma count_sort:
  fixes ds :: "real list"
  shows "card {k. k < length ds \<and> sort ds ! k \<le> v} = card {j. j < length ds \<and> ds ! j \<le> v}"
proof -
  have "card {k. k < length ds \<and> sort ds ! k \<le> v} =
        card {k. k < length (sort ds) \<and> sort ds ! k \<le> v}"
    by simp
  also
  have "card {k. k < length (sort ds) \<and> sort ds ! k \<le> v} = length (filter (\<lambda>x. x \<le> v) (sort ds))"
    by (rule length_filter_conv_card[symmetric])
  also have "\<dots> = length (filter (\<lambda>x. x \<le> v) ds)"
    by (simp only: filter_sort length_sort)
  also have "\<dots> = card {j. j < length ds \<and> ds ! j \<le> v}"
    by (rule length_filter_conv_card)
  finally show ?thesis .
qed

lemma sort_nth1_Min_others:
  fixes ds :: "real list"
  assumes i: "i < length ds" and len: "2 \<le> length ds" and least: "\<forall>x \<in> set ds. ds ! i \<le> x"
  shows "sort ds ! 1 = Min {ds ! j | j. j < length ds \<and> j \<noteq> i}"
proof -
  let ?S = "{ds ! j | j. j < length ds \<and> j \<noteq> i}"
  let ?ys = "sort ds"
  have fin: "finite ?S" by simp
  obtain j' where j': "j' < length ds" "j' \<noteq> i"
  proof (cases "i = 0")
    case True
    have "1 < length ds" using len by linarith
    then show ?thesis using True that[of 1] by simp
  next
    case False
    have "0 < length ds" using len by linarith
    then show ?thesis using False that[of 0] by blast
  qed
  then have ne: "?S \<noteq> {}" by blast
  define M where "M = Min ?S"
  have "M \<in> ?S" unfolding M_def using fin ne by (rule Min_in)
  then obtain j0 where j0: "j0 < length ds" "j0 \<noteq> i" "ds ! j0 = M" by blast
  have srt: "sorted ?ys" by simp
  have ylen: "length ?ys = length ds" by simp
  have upper: "?ys ! 1 \<le> M"
  proof (rule ccontr)
    assume "\<not> ?ys ! 1 \<le> M"
    then have gt: "M < ?ys ! 1" by simp
    have "{k. k < length ?ys \<and> ?ys ! k \<le> M} \<subseteq> {0}"
    proof
      fix k assume "k \<in> {k. k < length ?ys \<and> ?ys ! k \<le> M}"
      then have k: "k < length ?ys" "?ys ! k \<le> M" by auto
      have "k = 0"
      proof (rule ccontr)
        assume "k \<noteq> 0"
        then have "1 \<le> k" by simp
        then have "?ys ! 1 \<le> ?ys ! k" using srt k(1) by (intro sorted_nth_mono) auto
        then show False using gt k(2) by simp
      qed
      then show "k \<in> {0}" by simp
    qed
    then have "card {k. k < length ?ys \<and> ?ys ! k \<le> M} \<le> card {0::nat}"
      by (intro card_mono) auto
    then have c1: "card {j. j < length ds \<and> ds ! j \<le> M} \<le> 1"
      by (simp add: count_sort)
    have "ds ! i \<le> M" using least j0 by (metis nth_mem)
    then have "{i, j0} \<subseteq> {j. j < length ds \<and> ds ! j \<le> M}"
      using i j0 by auto
    then have "card {i, j0} \<le> card {j. j < length ds \<and> ds ! j \<le> M}"
      by (intro card_mono) auto
    then show False using c1 j0(2) by simp
  qed
  have lower: "M \<le> ?ys ! 1"
  proof -
    have "?ys ! 0 \<le> ?ys ! 1" using srt len by (intro sorted_nth_mono) auto
    then have "{0, 1} \<subseteq> {k. k < length ?ys \<and> ?ys ! k \<le> ?ys ! 1}"
      using len by auto
    then have "card {0, 1::nat} \<le> card {k. k < length ?ys \<and> ?ys ! k \<le> ?ys ! 1}"
      by (intro card_mono) auto
    then have c2: "2 \<le> card {j. j < length ds \<and> ds ! j \<le> ?ys ! 1}"
      by (simp add: count_sort)
    have "\<exists>j. j < length ds \<and> ds ! j \<le> ?ys ! 1 \<and> j \<noteq> i"
    proof (rule ccontr)
      assume "\<not> ?thesis"
      then have "{j. j < length ds \<and> ds ! j \<le> ?ys ! 1} \<subseteq> {i}" by auto
      then have "card {j. j < length ds \<and> ds ! j \<le> ?ys ! 1} \<le> card {i}"
        by (intro card_mono) auto
      then show False using c2 by simp
    qed
    then obtain j where j: "j < length ds" "ds ! j \<le> ?ys ! 1" "j \<noteq> i" by blast
    then have "ds ! j \<in> ?S" by blast
    then have "M \<le> ds ! j" unfolding M_def using fin by (intro Min_le) 
    then show ?thesis using j(2) by simp
  qed
  show ?thesis using upper lower by (simp add: M_def)
qed



lemma mono_sqrt: "mono sqrt"
  by (rule monoI) simp

lemma kld_nui_Min:
  assumes "i < length s1" "s2 \<noteq> []"
  shows "kld_nui s1 s2 ! i = Min (euclidean (s1 ! i) ` set s2)"
proof -
  let ?ds = "map (sqdist (s1 ! i)) s2"
  have ne: "sort ?ds \<noteq> []" using assms(2) by (metis length_0_conv length_map length_sort)
  have "kld_nui s1 s2 ! i = sqrt (sort ?ds ! 0)"
    using assms by (simp add: kld_nui_def length_fulldist nth_fulldist)
  also have "sort ?ds ! 0 = Min (set (sort ?ds))"
    using ne by (intro sorted_nth0_Min) simp_all
  also have "set (sort ?ds) = sqdist (s1 ! i) ` set s2" by simp
  also have "sqrt (Min (sqdist (s1 ! i) ` set s2)) = Min (sqrt ` sqdist (s1 ! i) ` set s2)"
    using assms(2) by (intro mono_Min_commute mono_sqrt) auto
  also have "sqrt ` sqdist (s1 ! i) ` set s2 = euclidean (s1 ! i) ` set s2"
    by (auto simp: euclidean_def)
  finally show ?thesis .
qed

lemma kld_rhoi_Min:
  assumes "i < length s1" "2 \<le> length s1"
  shows "kld_rhoi s1 ! i = Min {euclidean (s1 ! i) (s1 ! j) | j. j < length s1 \<and> j \<noteq> i}"
proof -
  let ?ds = "map (sqdist (s1 ! i)) s1"
  let ?S = "{?ds ! j | j. j < length ?ds \<and> j \<noteq> i}"
  have rho: "kld_rhoi s1 ! i = sqrt (sort ?ds ! 1)"
    using assms by (simp add: kld_rhoi_def length_fulldist nth_fulldist)
  have "?ds ! i = 0" using assms(1) by (simp add: sqdist_self)
  then have least: "\<forall>x \<in> set ?ds. ?ds ! i \<le> x" by (auto simp: sqdist_nonneg)
  have "sort ?ds ! 1 = Min ?S"
    using assms least by (intro sort_nth1_Min_others) simp_all
  moreover have "finite ?S" by simp
  moreover have "?S \<noteq> {}"
  proof -
    have "\<exists>j. j < length s1 \<and> j \<noteq> i"
    proof (cases "i = 0")
      case True
      have "1 < length s1" using assms(2) by linarith
      then show ?thesis using True by (intro exI[of _ 1]) simp
    next
      case False
      have "0 < length s1" using assms(2) by linarith
      then show ?thesis using False by (intro exI[of _ 0]) simp
    qed
    then show ?thesis by auto
  qed
  ultimately have "sqrt (sort ?ds ! 1) = Min (sqrt ` ?S)"
    using mono_Min_commute[OF mono_sqrt, of ?S] by simp
  moreover have "?S = {sqdist (s1 ! i) (s1 ! j) | j. j < length s1 \<and> j \<noteq> i}"
    by (rule Collect_cong) (metis length_map nth_map)
  then have "sqrt ` ?S = {euclidean (s1 ! i) (s1 ! j) | j. j < length s1 \<and> j \<noteq> i}"
    unfolding euclidean_def by (simp only:) blast
  ultimately show ?thesis using rho by simp
qed


text \<open>
  What the estimator computes on samples of equal size: for every point of \<open>s1\<close>, \<open>rho\<close>
  is the distance to its nearest other point of \<open>s1\<close>, \<open>nu\<close> the distance to its nearest
  point of \<open>s2\<close>, \<open>epsilon\<close> the larger of the two, \<open>l\<close> the number of points of \<open>s1\<close>
  within \<open>epsilon\<close> minus one, and \<open>k\<close> the number of points of \<open>s2\<close> within \<open>epsilon\<close>.
\<close>

lemma kld_estimator_equal_sizes_meaning:
  assumes "length s1 = length s2" "2 \<le> length s1" "i < length s1"
  shows "kld_rhoi s1 ! i = Min {euclidean (s1 ! i) (s1 ! j) | j. j < length s1 \<and> j \<noteq> i}"
    and "kld_nui s1 s2 ! i = Min (euclidean (s1 ! i) ` set s2)"
    and "kld_epsilon s1 s2 ! i = max (kld_rhoi s1 ! i) (kld_nui s1 s2 ! i)"
    and "kld_li s1 s2 ! i =
         int (card {j. j < length s1 \<and> euclidean (s1 ! i) (s1 ! j) \<le> kld_epsilon s1 s2 ! i}) - 1"
    and "kld_ki s1 s2 ! i =
         int (card {j. j < length s2 \<and> euclidean (s1 ! i) (s2 ! j) \<le> kld_epsilon s1 s2 ! i})"
proof -
  have ne: "s2 \<noteq> []" using assms(1,2) by auto
  show "kld_rhoi s1 ! i = Min {euclidean (s1 ! i) (s1 ! j) | j. j < length s1 \<and> j \<noteq> i}"
    using assms(3,2) by (rule kld_rhoi_Min)
  show "kld_nui s1 s2 ! i = Min (euclidean (s1 ! i) ` set s2)"
    using assms(3) ne by (rule kld_nui_Min)
  show "kld_epsilon s1 s2 ! i = max (kld_rhoi s1 ! i) (kld_nui s1 s2 ! i)"
    using assms(3) by (simp add: kld_epsilon_def length_kld_rhoi length_kld_nui)
  show "kld_li s1 s2 ! i =
         int (card {j. j < length s1 \<and> euclidean (s1 ! i) (s1 ! j) \<le> kld_epsilon s1 s2 ! i}) - 1"
    using assms(1,3) by (intro kld_li_count) simp_all
  show "kld_ki s1 s2 ! i =
         int (card {j. j < length s2 \<and> euclidean (s1 ! i) (s2 ! j) \<le> kld_epsilon s1 s2 ! i})"
    using assms(3) by (rule kld_ki_count)
qed


lemma fulldist_dup_s1: "fulldist [[0], [0]] [[0], [0]] (Suc (Suc 0)) = [[0, 0], [0, 0]]"
  by (simp add: fulldist_def sqdist_def)

lemma fulldist_dup_s2: "fulldist [[1], [2]] [[0], [0]] (Suc (Suc 0)) = [[1, 2], [1, 2]]"
  by (simp add: fulldist_def sqdist_def)

lemma kld_li_dup: "kld_li [[0], [0]] [[1], [2]] = [1, 1]"
  by (simp add: kld_li_def kld_epsilon_def kld_rhoi_def kld_nui_def fulldist_dup_s1
      fulldist_dup_s2 searchsorted_right_def upt_rec)

lemma kld_ki_dup: "kld_ki [[0], [0]] [[1], [2]] = [1, 1]"
  by (simp add: kld_ki_def kld_epsilon_def kld_rhoi_def kld_nui_def fulldist_dup_s1
      fulldist_dup_s2 searchsorted_right_def upt_rec)

lemma fulldist_ex_s1: "fulldist [[0], [2]] [[0], [2]] (Suc (Suc 0)) = [[0, 2], [0, 2]]"
  by (simp add: fulldist_def sqdist_def)

lemma fulldist_ex_s2: "fulldist [[1], [2]] [[0], [2]] (Suc (Suc 0)) = [[1, 2], [0, 1]]"
  by (simp add: fulldist_def sqdist_def)

lemma kld_li_ex: "kld_li [[0], [2]] [[1], [2]] = [1, 1]"
  by (simp add: kld_li_def kld_epsilon_def kld_rhoi_def kld_nui_def fulldist_ex_s1
      fulldist_ex_s2 searchsorted_right_def upt_rec)

lemma kld_ki_ex: "kld_ki [[0], [2]] [[1], [2]] = [2, 2]"
  by (simp add: kld_ki_def kld_epsilon_def kld_rhoi_def kld_nui_def fulldist_ex_s1
      fulldist_ex_s2 searchsorted_right_def upt_rec)

text \<open>
  Claim C10 at two samples of two points each, with the counts evaluated.
\<close>

theorem kld_counts_positive_witness:
  "length [[0], [2 :: real]] = length [[1], [2 :: real]] \<and> 2 \<le> length [[0], [2 :: real]]
   \<and> kld_li [[0], [2]] [[1], [2]] = [1, 1] \<and> kld_ki [[0], [2]] [[1], [2]] = [2, 2]
   \<and> list_all (\<lambda>l. 1 \<le> l) (kld_li [[0], [2]] [[1], [2]])
   \<and> list_all (\<lambda>k. 1 \<le> k) (kld_ki [[0], [2]] [[1], [2]])"
  using kld_counts_positive[of "[[0], [2]]" "[[1], [2]]"] kld_li_ex kld_ki_ex
  by (simp add: list_all_iff)

text \<open>
  Claim C7, as stated, fails: \<open>s1\<close> holds the same point twice, so \<open>rho\<close> is 0 at
  that point, and the estimator returns the ordinary number \<open>ln 2\<close>, not an error value.
\<close>

theorem kld_estimator_duplicate_no_signal:
  "kld_rhoi [[0], [0]] ! 0 = 0
   \<and> kld_estimator digamma_plus_gamma [[0], [0]] [[1], [2]] = Inr (ln 2)"
proof
  show "kld_rhoi [[0], [0]] ! 0 = 0"
    by (simp add: kld_rhoi_def fulldist_dup_s1)
  have "kld_estimator digamma_plus_gamma [[0], [0]] [[1], [2]] =
        Inr (mean (map2 (\<lambda>l k. digamma_plus_gamma l - digamma_plus_gamma k)
                     (kld_li [[0], [0]] [[1], [2]]) (kld_ki [[0], [0]] [[1], [2]]))
             + ln (real (length [[1], [2 :: real]]) / real (length [[0], [0 :: real]] - 1)))"
    by (rule kld_estimator_equal_sizes[where d = 1]) simp_all
  then show "kld_estimator digamma_plus_gamma [[0], [0]] [[1], [2]] = Inr (ln 2)"
    by (simp add: kld_li_dup kld_ki_dup mean_def)
qed

text \<open>
  Claim C7, amended: the estimator has no degeneracy signal. When \<open>s1\<close> holds an exact
  duplicate point (and the two samples have equal size and one dimension), \<open>rho\<close> is 0
  at that point and the estimator returns the ordinary estimate, the mean of the digamma
  differences plus \<open>ln (m / (n - 1))\<close>.
\<close>

theorem kld_estimator_duplicate_estimate:
  assumes "length s1 = length s2" "\<forall>x \<in> set s1 \<union> set s2. length x = d"
    and "i < j" "j < length s1" "s1 ! i = s1 ! j"
  shows "kld_rhoi s1 ! i = 0 \<and>
         kld_estimator digamma s1 s2 =
           Inr (mean (map2 (\<lambda>l k. digamma l - digamma k) (kld_li s1 s2) (kld_ki s1 s2))
                + ln (real (length s2) / real (length s1 - 1)))"
proof
  show "kld_rhoi s1 ! i = 0"
    using assms(3-5) by (rule kld_rhoi_duplicate)
  have "2 \<le> length s1" using assms(3,4) by simp
  with assms(1) show "kld_estimator digamma s1 s2 =
           Inr (mean (map2 (\<lambda>l k. digamma l - digamma k) (kld_li s1 s2) (kld_ki s1 s2))
                + ln (real (length s2) / real (length s1 - 1)))"
    using assms(2) by (rule kld_estimator_equal_sizes)
qed

text \<open>
  The amended claim C7 at \<open>s1 = [[3], [3]]\<close>, \<open>s2 = [[3], [4]]\<close>.
\<close>

theorem kld_estimator_duplicate_estimate_witness:
  "length [[3], [3 :: real]] = length [[3], [4 :: real]]
   \<and> list_all (\<lambda>x. length x = 1) ([[3], [3 :: real]] @ [[3], [4]])
   \<and> (0 :: nat) < 1 \<and> 1 < length [[3], [3 :: real]] \<and> [[3], [3 :: real]] ! 0 = [[3], [3]] ! 1
   \<and> kld_rhoi [[3], [3]] ! 0 = 0
   \<and> (\<exists>v. kld_estimator digamma_plus_gamma [[3], [3]] [[3], [4]] = Inr v)"
  using kld_estimator_duplicate_estimate[of "[[3], [3]]" "[[3], [4]]" 1 0 1 digamma_plus_gamma]
  by simp

text \<open>
  Claim C1 at a failing input: with three points in \<open>s1\<close> and two in \<open>s2\<close> the list
  \<open>li\<close> is built over \<^verbatim>\<open>range(m)\<close> and has two entries, \<open>ki\<close> has three, and the
  subtraction of the two digamma arrays raises ValueError where the claim promises the
  estimate.
\<close>

theorem kld_estimator_range_m_failure:
  "kld_estimator digamma [[0], [1], [2]] [[0], [2]] = Inl ValueError"
  by (rule kld_estimator_size_mismatch[where d = 1]) simp_all

text \<open>The failure of claim C1 with the harmonic sums for digamma.\<close>

theorem kld_estimator_range_m_failure_witness:
  "kld_estimator digamma_plus_gamma [[0], [1], [2]] [[0], [2]] = Inl ValueError"
  using kld_estimator_range_m_failure[of digamma_plus_gamma] by simp
section \<open>Properties of the shot noise\<close>


lemma clip_unit: "0 \<le> clip x 0 1 \<and> clip x 0 1 \<le> 1"
  by (simp add: clip_def)

text \<open>
  Claim C5: for a shot count \<open>n_shots \<ge> 1\<close> and any real \<open>exact\<close>, the result is
  \<open>1 - 2 * clip (sample / n_shots) 0 1\<close>, where \<open>sample\<close> is the standard normal draw of
  the key scaled to mean \<open>n_shots * p\<close> and standard deviation
  \<open>sqrt (max (n_shots * p * (1 - p)) (1 / 10 ^ 16))\<close> for \<open>p = clip ((1 - exact) / 2) 0 1\<close>;
  the variance under the root is strictly positive and the result lies in \<open>[-1, 1]\<close>.
\<close>

theorem add_sampling_error_range:
  assumes "1 \<le> shots"
  shows "\<exists>p var sample.
           p = clip ((1 - exact) / 2) 0 1
         \<and> var = max (of_int shots * p * (1 - p)) (1 / 10 ^ 16) \<and> 0 < var
         \<and> sample = draw k * sqrt var + of_int shots * p
         \<and> add_sampling_error draw exact shots k = 1 - 2 * clip (sample / of_int shots) 0 1
         \<and> - 1 \<le> add_sampling_error draw exact shots k
         \<and> add_sampling_error draw exact shots k \<le> 1"
proof -
  define p where "p = clip ((1 - exact) / 2) 0 1"
  define var where "var = max (of_int shots * p * (1 - p)) (1 / 10 ^ 16)"
  define sample where "sample = draw k * sqrt var + of_int shots * p"
  have pos: "0 < var" unfolding var_def by (simp add: less_max_iff_disj)
  have eq: "add_sampling_error draw exact shots k = 1 - 2 * clip (sample / of_int shots) 0 1"
    by (simp add: add_sampling_error_def Let_def p_def var_def sample_def)
  have "0 \<le> clip (sample / of_int shots) 0 1" "clip (sample / of_int shots) 0 1 \<le> 1"
    using clip_unit by auto
  then have rng: "- 1 \<le> add_sampling_error draw exact shots k"
               "add_sampling_error draw exact shots k \<le> 1"
    unfolding eq by linarith+
  show ?thesis using p_def var_def sample_def pos eq rng by blast
qed

text \<open>
  Claim C5 at \<open>exact = 0\<close>, four shots and a normal draw of 1: the sample is 3 and the
  result \<open>- 1 / 2\<close>.
\<close>

theorem add_sampling_error_range_witness:
  "(1::int) \<le> 4
   \<and> add_sampling_error (\<lambda>k. k) 0 4 1 = - 1 / 2
   \<and> - 1 \<le> add_sampling_error (\<lambda>k. k) 0 4 1 \<and> add_sampling_error (\<lambda>k. k) 0 4 1 \<le> 1"
  using add_sampling_error_range[where shots = 4 and draw = "\<lambda>k. k" and exact = 0 and k = 1]
  by (simp add: add_sampling_error_def clip_def)

section \<open>Properties of the checkpoint selection\<close>


lemma run_iters_append:
  "run_iters f sc (xs @ ys) s =
     (case run_iters f sc xs s of Inl e \<Rightarrow> Inl e | Inr s' \<Rightarrow> run_iters f sc ys s')"
  by (induction xs arbitrary: s) (auto split: sum.splits)

lemma score_in_effect_eval:
  "int i mod f = 0 \<Longrightarrow> score_in_effect f sc i = sc i"
  by (simp add: score_in_effect_def)

lemma score_in_effect_stale:
  assumes "0 < f" "int (Suc k) mod f \<noteq> 0"
  shows "score_in_effect f sc (Suc k) = score_in_effect f sc k"
proof -
  define m where "m = int k mod f"
  have step: "int (Suc k) mod f = (m + 1) mod f"
  proof -
    have "int (Suc k) = int k + 1" by simp
    then show ?thesis unfolding m_def by (simp only: mod_add_left_eq)
  qed
  have bounds: "0 \<le> m" "m < f"
    using assms(1) by (simp_all add: m_def)
  have "m + 1 \<noteq> f"
    using assms(2) step by auto
  then have "m + 1 < f" using bounds by simp
  then have "int (Suc k) mod f = m + 1"
    using step bounds by simp
  then have "Suc k - nat (int (Suc k) mod f) = k - nat (int k mod f)"
    using bounds by (simp add: m_def nat_add_distrib)
  then show ?thesis by (simp only: score_in_effect_def)
qed

lemma train_iter_inv:
  assumes f: "0 < f" and inv: "selector_inv f sc k s"
  shows "\<exists>s'. train_iter f sc k s = Inr s' \<and> selector_inv f sc (Suc k) s'"
proof -
  let ?cur = "score_in_effect f sc"
  define s1 where "s1 = (if int k mod f = 0 then s\<lparr>kld := Some (sc k)\<rparr> else s)"
  have kld1: "kld s1 = Some (?cur k)"
  proof (cases "int k mod f = 0")
    case True
    then show ?thesis by (simp add: s1_def score_in_effect_eval)
  next
    case False
    then obtain k' where k': "k = Suc k'" by (cases k) auto
    have "kld s = Some (?cur k')" using inv k' by (simp add: selector_inv_def)
    moreover have "?cur k = ?cur k'" using False f unfolding k' by (rule score_in_effect_stale[rotated])
    ultimately show ?thesis using False by (simp add: s1_def)
  qed
  have rest1: "saved s1 = saved s" "best s1 = best s" "best_i s1 = best_i s"
    by (simp_all add: s1_def)
  have sv: "saved s = filter (checkpoint_at f sc) [0..<k]"
    using inv by (simp add: selector_inv_def)
  have bn: "best s = None \<Longrightarrow> (\<forall>j < k. j \<in> set milestones) \<and> best_i s = 0"
    using inv by (simp add: selector_inv_def)
  have bs: "\<And>b. best s = Some b \<Longrightarrow>
        best_i s < k \<and> best_i s \<notin> set milestones \<and> checkpoint_at f sc (best_i s) \<and>
        b = ?cur (best_i s) \<and> (\<forall>j < k. j \<notin> set milestones \<longrightarrow> b \<le> ?cur j)"
    using inv by (simp add: selector_inv_def)
  have f0: "f \<noteq> 0" using f by simp
  show ?thesis
  proof (cases "k \<in> set milestones")
    case True
    then have cp: "checkpoint_at f sc k" by (simp add: checkpoint_at_def)
    have eq: "train_iter f sc k s = Inr (s1\<lparr>saved := saved s1 @ [k]\<rparr>)"
      using True f0 by (simp add: train_iter_def s1_def Let_def)
    have "selector_inv f sc (Suc k) (s1\<lparr>saved := saved s1 @ [k]\<rparr>)"
      unfolding selector_inv_def
      using kld1 rest1 sv cp True bn bs by (auto simp: less_Suc_eq)
    then show ?thesis using eq by blast
  next
    case nm: False
    show ?thesis
    proof (cases "less_best (?cur k) (best s)")
      case True
      have cp: "checkpoint_at f sc k"
      proof (cases "best s")
        case None
        then show ?thesis using bn by (simp add: checkpoint_at_def)
      next
        case (Some b)
        then have "?cur k < b" using True by simp
        moreover have "\<forall>j < k. j \<notin> set milestones \<longrightarrow> b \<le> ?cur j"
          using bs[OF Some] by blast
        ultimately show ?thesis by (fastforce simp: checkpoint_at_def)
      qed
      have lower: "\<forall>j < k. j \<notin> set milestones \<longrightarrow> ?cur k \<le> ?cur j"
        using cp nm by (auto simp: checkpoint_at_def less_imp_le)
      let ?s' = "s1\<lparr>saved := saved s1 @ [k], best := Some (?cur k), best_i := k\<rparr>"
      have eq: "train_iter f sc k s = Inr ?s'"
        using nm f0 True kld1 rest1
        by (simp add: train_iter_def Let_def s1_def[symmetric])
      have "selector_inv f sc (Suc k) ?s'"
        unfolding selector_inv_def
        using kld1 rest1 sv cp nm lower by (auto simp: less_Suc_eq)
      then show ?thesis using eq by blast
    next
      case False
      then obtain b where b: "best s = Some b" "\<not> ?cur k < b"
        by (cases "best s") auto
      note B = bs[OF b(1)]
      have "\<not> checkpoint_at f sc k"
        using nm B b(2) by (auto simp: checkpoint_at_def)
      then have ncp: "filter (checkpoint_at f sc) [0..<Suc k] = filter (checkpoint_at f sc) [0..<k]"
        by simp
      have eq: "train_iter f sc k s = Inr s1"
        using nm f0 False kld1 rest1
        by (simp add: train_iter_def Let_def s1_def[symmetric])
      have "selector_inv f sc (Suc k) s1"
        unfolding selector_inv_def ncp
        using kld1 rest1 sv b B by (auto simp: less_Suc_eq)
      then show ?thesis using eq by blast
    qed
  qed
qed

lemma run_iters_inv:
  assumes "0 < f"
  shows "\<exists>s. run_iters f sc [0..<k] init_selector = Inr s \<and> selector_inv f sc k s"
proof (induction k)
  case 0
  show ?case by (simp add: selector_inv_def init_selector_def)
next
  case (Suc k)
  then obtain s where s: "run_iters f sc [0..<k] init_selector = Inr s" "selector_inv f sc k s"
    by blast
  from train_iter_inv[OF assms s(2)] obtain s' where
    s': "train_iter f sc k s = Inr s'" "selector_inv f sc (Suc k) s'" by blast
  have "run_iters f sc [0..<Suc k] init_selector = Inr s'"
    using s(1) s'(1) by (simp add: run_iters_append)
  then show ?case using s'(2) by blast
qed



lemma scenario_run:
  "train_loop 1 (scenario_score other) 8 =
     Inr \<lparr>kld = Some 4, best = Some 4, best_i = 8, saved = [0, 1, 2, 3, 5, 6, 8]\<rparr>"
  by (simp add: train_loop_def init_selector_def train_iter_def milestones_def scenario_score_def
      upt_rec)

text \<open>
  Claim C6 at a failing input: with an evaluation every 200 iterations the only score
  computed up to iteration 3 is the one of iteration 0. Iteration 3 is no milestone and
  computes no score, and yet the loop compares the score left over from iteration 0 with
  \<open>best\<close>, which the milestones 0, 1 and 2 have not touched, serialises the parameters of
  iteration 3 and makes \<open>(3, 5)\<close> the retained pair; the claim takes a checkpoint outside
  the milestones only for a newly computed score that is strictly below every score seen.
\<close>

theorem train_loop_stale_checkpoint:
  "train_loop 200 flat_score 3 =
     Inr \<lparr>kld = Some 5, best = Some 5, best_i = 3, saved = [0, 1, 2, 3]\<rparr>
   \<and> \<not> spec_checkpoint_at 200 flat_score 3"
  by (simp add: train_loop_def init_selector_def train_iter_def milestones_def flat_score_def
      spec_checkpoint_at_def upt_rec)

text \<open>
  The failing input of claim C6 once more, as the state that the loop returns.
\<close>

theorem train_loop_stale_checkpoint_witness:
  "train_loop 200 flat_score 3 =
     Inr \<lparr>kld = Some 5, best = Some 5, best_i = 3, saved = [0, 1, 2, 3]\<rparr>"
  using train_loop_stale_checkpoint by simp

text \<open>
  What the loop does in general, for a positive evaluation frequency: it serialises the
  parameters at every milestone, whatever the score, and at any other iteration exactly
  when the score in effect there (the one computed at the latest evaluation, new only
  when the iteration is itself an evaluation) is strictly below the score in effect at
  every earlier iteration that is not a milestone; a tie never triggers. The retained
  pair is then that iteration and its score; a milestone leaves the retained pair as it
  is. With the scores 5.0, 5.0, 4.9, 6.0, 4.0 at the iterations 3, 4, 6, 7, 8 (no
  milestones, evaluation at every iteration), the checkpoints outside the milestones are
  those of the first, third and fifth score, as the scenario of the specification has
  it.
\<close>

theorem train_loop_checkpoints:
  assumes "0 < eval_freq"
  shows "(\<exists>s. train_loop eval_freq score (int n) = Inr s
            \<and> saved s = filter (checkpoint_at eval_freq score) [0..<Suc n]
            \<and> (best s = None \<longrightarrow> (\<forall>j \<le> n. j \<in> set milestones))
            \<and> (\<forall>b. best s = Some b \<longrightarrow>
                  best_i s \<in> set (saved s) \<and> best_i s \<notin> set milestones
                  \<and> b = score_in_effect eval_freq score (best_i s)
                  \<and> (\<forall>j \<le> n. j \<notin> set milestones \<longrightarrow> b \<le> score_in_effect eval_freq score j)))
       \<and> (\<exists>s. train_loop 1 (scenario_score other) 8 = Inr s
            \<and> saved s = [0, 1, 2, 3, 5, 6, 8] \<and> best s = Some 4 \<and> best_i s = 8)"
proof
  obtain s where s: "run_iters eval_freq score [0..<Suc n] init_selector = Inr s"
      "selector_inv eval_freq score (Suc n) s"
    using run_iters_inv[OF assms] by blast
  have run: "train_loop eval_freq score (int n) = Inr s"
    using s(1) by (simp add: train_loop_def nat_add_distrib)
  have sv: "saved s = filter (checkpoint_at eval_freq score) [0..<Suc n]"
    using s(2) unfolding selector_inv_def by blast
  have bn: "best s = None \<longrightarrow> (\<forall>j \<le> n. j \<in> set milestones)"
    using s(2) unfolding selector_inv_def by (simp add: less_Suc_eq_le)
  have bs: "\<forall>b. best s = Some b \<longrightarrow>
                  best_i s \<in> set (saved s) \<and> best_i s \<notin> set milestones
                  \<and> b = score_in_effect eval_freq score (best_i s)
                  \<and> (\<forall>j \<le> n. j \<notin> set milestones \<longrightarrow> b \<le> score_in_effect eval_freq score j)"
  proof (intro allI impI)
    fix b assume "best s = Some b"
    then have B: "best_i s < Suc n" "best_i s \<notin> set milestones"
        "checkpoint_at eval_freq score (best_i s)"
        "b = score_in_effect eval_freq score (best_i s)"
        "\<forall>j < Suc n. j \<notin> set milestones \<longrightarrow> b \<le> score_in_effect eval_freq score j"
      using s(2) unfolding selector_inv_def by blast+
    have "best_i s \<in> set (saved s)"
    proof -
      have "best_i s \<in> {0..<Suc n}" using B(1) by (simp only: atLeastLessThan_iff) simp
      then have "best_i s \<in> set [0..<Suc n]" by (simp only: set_upt)
      then show ?thesis using B(3) by (simp only: sv set_filter mem_Collect_eq)
    qed
    have mem: "best_i s \<in> set (saved s)" by fact
    have low: "\<forall>j \<le> n. j \<notin> set milestones \<longrightarrow> b \<le> score_in_effect eval_freq score j"
      using B(5) by (simp only: less_Suc_eq_le)
    show "best_i s \<in> set (saved s) \<and> best_i s \<notin> set milestones
                  \<and> b = score_in_effect eval_freq score (best_i s)
                  \<and> (\<forall>j \<le> n. j \<notin> set milestones \<longrightarrow> b \<le> score_in_effect eval_freq score j)"
      using mem B(2) B(4) low by (intro conjI)
  qed
  show "\<exists>s. train_loop eval_freq score (int n) = Inr s
            \<and> saved s = filter (checkpoint_at eval_freq score) [0..<Suc n]
            \<and> (best s = None \<longrightarrow> (\<forall>j \<le> n. j \<in> set milestones))
            \<and> (\<forall>b. best s = Some b \<longrightarrow>
                  best_i s \<in> set (saved s) \<and> best_i s \<notin> set milestones
                  \<and> b = score_in_effect eval_freq score (best_i s)
                  \<and> (\<forall>j \<le> n. j \<notin> set milestones \<longrightarrow> b \<le> score_in_effect eval_freq score j))"
    using run sv bn bs by (intro exI[of _ s] conjI)
  show "\<exists>s. train_loop 1 (scenario_score other) 8 = Inr s
            \<and> saved s = [0, 1, 2, 3, 5, 6, 8] \<and> best s = Some 4 \<and> best_i s = 8"
    by (simp add: scenario_run)
qed

text \<open>
  The general statement at evaluation frequency 1 and four iterations.
\<close>

theorem train_loop_checkpoints_witness:
  "(0::int) < 1
   \<and> train_loop 1 (scenario_score 0) (int 4) =
       Inr \<lparr>kld = Some 5, best = Some 5, best_i = 3, saved = [0, 1, 2, 3]\<rparr>
   \<and> filter (checkpoint_at 1 (scenario_score 0)) [0..<Suc 4] = [0, 1, 2, 3]"
proof -
  have run: "train_loop 1 (scenario_score 0) (int 4) =
       Inr \<lparr>kld = Some 5, best = Some 5, best_i = 3, saved = [0, 1, 2, 3]\<rparr>"
    by (simp add: train_loop_def init_selector_def train_iter_def milestones_def
        scenario_score_def upt_rec)
  show ?thesis
    using train_loop_checkpoints[where eval_freq = 1 and score = "scenario_score 0" and n = 4]
    unfolding run by simp
qed

section \<open>Properties of the training step\<close>

text \<open>The result of a critic update, and what the critic phase leaves as it was.\<close>

lemma critic_update_result:
  "critic_update P cfg obs real_batch st =
     (let z = latent_batch P cfg (split P (key st) 4 1);
          keys = shot_keys P cfg (length obs) (split P (key st) 4 3);
          loss = critic_loss P cfg obs (critic_params st) (generator_quantum_params st)
                   (generator_linear_params st) real_batch z (split P (key st) 4 2) keys;
          grads = grad_c P (\<lambda>c'. critic_loss P cfg obs c' (generator_quantum_params st)
                   (generator_linear_params st) real_batch z (split P (key st) 4 2) keys)
                   (critic_params st)
      in (st\<lparr>key := split P (key st) 4 0,
              critic_opt_state := snd (tx_c P grads (critic_opt_state st)),
              critic_params := apply_updates_c P (critic_params st)
                                 (fst (tx_c P grads (critic_opt_state st)))\<rparr>, loss))"
  by (simp add: critic_update_def compute_grads_critic_def Let_def split_beta)

lemma critic_update_frame:
  "generator_quantum_params (fst (critic_update P cfg obs rb st)) = generator_quantum_params st"
  "generator_linear_params (fst (critic_update P cfg obs rb st)) = generator_linear_params st"
  "generator_quantum_opt_state (fst (critic_update P cfg obs rb st)) = generator_quantum_opt_state st"
  "generator_linear_opt_state (fst (critic_update P cfg obs rb st)) = generator_linear_opt_state st"
  "key (fst (critic_update P cfg obs rb st)) = split P (key st) 4 0"
  by (simp_all add: critic_update_result Let_def)

lemma critic_phase_frame:
  "generator_quantum_params (fst (critic_phase P cfg obs batches sl)) = generator_quantum_params (fst sl)"
  "generator_linear_params (fst (critic_phase P cfg obs batches sl)) = generator_linear_params (fst sl)"
  "generator_quantum_opt_state (fst (critic_phase P cfg obs batches sl)) =
     generator_quantum_opt_state (fst sl)"
  "generator_linear_opt_state (fst (critic_phase P cfg obs batches sl)) =
     generator_linear_opt_state (fst sl)"
  by (induction batches arbitrary: sl) (simp_all add: critic_update_frame)





lemma critic_phase_foldl:
  "critic_phase P cfg obs batches sl =
     foldl (\<lambda>sl rb. (fst (critic_update P cfg obs rb (fst sl)),
                      Some (snd (critic_update P cfg obs rb (fst sl))))) sl batches"
  by (induction batches arbitrary: sl) simp_all

text \<open>
  Claim C3: the critic loss is the mean critic value on the fake batch minus the mean on
  the real batch plus \<open>lambda_gp\<close> times the gradient penalty, the mean over the batch of
  the squared distance to 1 of the Euclidean norm of the critic's input gradient at the
  interpolates \<open>epsilon * real + (1 - epsilon) * fake\<close>, with one \<open>epsilon\<close> per batch item
  drawn by \<^verbatim>\<open>uniform\<close> on \<open>[0, 1]\<close>; the fake batch is the readout of the shot-noised
  circuit values. A critic update draws its latent batch and its shot-noise keys from the
  split key, applies the optimizer step for the gradient of this loss to the critic
  parameters and the critic optimizer state, keeps the loss, and changes nothing else;
  the critic phase is that update for each real batch in turn and leaves the generator
  parameters and the generator optimizer states as they were.
\<close>

theorem critic_phase_loss_and_frame:
  "(let fake = map2 (\<lambda>zi ki.
                  generator_linear P l
                    (map2 (\<lambda>e kk. add_sampling_error (normal P) e (n_shots cfg) kk)
                       (map (evaluate_circuit P q zi) obs) ki)) z keys;
        mix = map (\<lambda>(i, r, f).
                 map2 (\<lambda>x y. uniform P k (batch_size cfg) 1 0 1 i 0 * x
                             + (1 - uniform P k (batch_size cfg) 1 0 1 i 0) * y) r f)
               (zip [0..<batch_size cfg] (zip real_batch fake))
    in critic_loss P cfg obs c q l real_batch z k keys =
         sum_list (map (critic P c) fake) / real (length fake)
         - sum_list (map (critic P c) real_batch) / real (length real_batch)
         + lambda_gp cfg *
           (sum_list (map (\<lambda>x. (sqrt (sum_list (map (\<lambda>g. g\<^sup>2) (grad_x P (critic P c) x))) - 1)\<^sup>2) mix)
            / real (length mix)))
   \<and> (let z' = map (\<lambda>i. map (\<lambda>j. uniform P (split P (key st) 4 1) (batch_size cfg)
                                  (latent_dim cfg) (- pi) pi i j) [0..<latent_dim cfg])
                 [0..<batch_size cfg];
          keys' = map (\<lambda>b. map (\<lambda>ob. split P (split P (key st) 4 3)
                                      (length obs * batch_size cfg) (b * length obs + ob))
                                [0..<length obs])
                    [0..<batch_size cfg];
          loss = critic_loss P cfg obs (critic_params st) (generator_quantum_params st)
                   (generator_linear_params st) real_batch z' (split P (key st) 4 2) keys';
          grads = grad_c P (\<lambda>c'. critic_loss P cfg obs c' (generator_quantum_params st)
                              (generator_linear_params st) real_batch z' (split P (key st) 4 2)
                              keys')
                    (critic_params st)
      in critic_update P cfg obs real_batch st =
           (st\<lparr>key := split P (key st) 4 0,
               critic_opt_state := snd (tx_c P grads (critic_opt_state st)),
               critic_params := apply_updates_c P (critic_params st)
                                  (fst (tx_c P grads (critic_opt_state st)))\<rparr>, loss))
   \<and> critic_phase P cfg obs batches sl =
       foldl (\<lambda>sl rb. (fst (critic_update P cfg obs rb (fst sl)),
                        Some (snd (critic_update P cfg obs rb (fst sl))))) sl batches
   \<and> generator_quantum_params (fst (critic_phase P cfg obs batches sl)) =
       generator_quantum_params (fst sl)
   \<and> generator_linear_params (fst (critic_phase P cfg obs batches sl)) =
       generator_linear_params (fst sl)
   \<and> generator_quantum_opt_state (fst (critic_phase P cfg obs batches sl)) =
       generator_quantum_opt_state (fst sl)
   \<and> generator_linear_opt_state (fst (critic_phase P cfg obs batches sl)) =
       generator_linear_opt_state (fst sl)"
proof (intro conjI)
  show "let fake = map2 (\<lambda>zi ki.
                  generator_linear P l
                    (map2 (\<lambda>e kk. add_sampling_error (normal P) e (n_shots cfg) kk)
                       (map (evaluate_circuit P q zi) obs) ki)) z keys;
        mix = map (\<lambda>(i, r, f).
                 map2 (\<lambda>x y. uniform P k (batch_size cfg) 1 0 1 i 0 * x
                             + (1 - uniform P k (batch_size cfg) 1 0 1 i 0) * y) r f)
               (zip [0..<batch_size cfg] (zip real_batch fake))
    in critic_loss P cfg obs c q l real_batch z k keys =
         sum_list (map (critic P c) fake) / real (length fake)
         - sum_list (map (critic P c) real_batch) / real (length real_batch)
         + lambda_gp cfg *
           (sum_list (map (\<lambda>x. (sqrt (sum_list (map (\<lambda>g. g\<^sup>2) (grad_x P (critic P c) x))) - 1)\<^sup>2) mix)
            / real (length mix))"
    by (simp add: critic_loss_def Let_def fake_batch_def generator_quantum_def data_mix_def
        mean_def norm2_def o_def mult.commute)
  show "let z' = map (\<lambda>i. map (\<lambda>j. uniform P (split P (key st) 4 1) (batch_size cfg)
                                  (latent_dim cfg) (- pi) pi i j) [0..<latent_dim cfg])
                 [0..<batch_size cfg];
          keys' = map (\<lambda>b. map (\<lambda>ob. split P (split P (key st) 4 3)
                                      (length obs * batch_size cfg) (b * length obs + ob))
                                [0..<length obs])
                    [0..<batch_size cfg];
          loss = critic_loss P cfg obs (critic_params st) (generator_quantum_params st)
                   (generator_linear_params st) real_batch z' (split P (key st) 4 2) keys';
          grads = grad_c P (\<lambda>c'. critic_loss P cfg obs c' (generator_quantum_params st)
                              (generator_linear_params st) real_batch z' (split P (key st) 4 2)
                              keys')
                    (critic_params st)
      in critic_update P cfg obs real_batch st =
           (st\<lparr>key := split P (key st) 4 0,
               critic_opt_state := snd (tx_c P grads (critic_opt_state st)),
               critic_params := apply_updates_c P (critic_params st)
                                  (fst (tx_c P grads (critic_opt_state st)))\<rparr>, loss)"
    by (simp add: critic_update_result Let_def latent_batch_def shot_keys_def)
  show "critic_phase P cfg obs batches sl =
       foldl (\<lambda>sl rb. (fst (critic_update P cfg obs rb (fst sl)),
                        Some (snd (critic_update P cfg obs rb (fst sl))))) sl batches"
    by (rule critic_phase_foldl)
qed (rule critic_phase_frame)+




lemma train_step_unbound:
  "train_step P cfg obs [] st = Inl UnboundLocalError"
  by (simp add: train_step_def Let_def split_beta)

text \<open>
  The loader yields exactly when the batch size is below the size of the data set;
  otherwise asking it for a batch does not return.
\<close>

lemma enter_pass_yields:
  "B < length data \<Longrightarrow>
   enter_pass P data B lkey =
     Some (take_rows data (take B (permutation P (split P lkey 2 1) (length data))),
           Suspended (split P lkey 2 0) (permutation P (split P lkey 2 1) (length data)) 0 B)"
  by (subst enter_pass.simps) simp

lemma enter_pass_returns_only_below:
  assumes "enter_pass P data B lkey = Some r"
  shows "B < length data"
proof -
  have "(\<lambda>x y. snd (fst x) < length (snd (fst (fst x)))) (((P, data), B), lkey) r"
  proof (rule enter_pass.raw_induct[OF _ assms])
    fix f :: "('a, 'b, 'c, 'd, 'e, 'f, 'g) prims \<Rightarrow> real list list \<Rightarrow> nat \<Rightarrow> 'a \<Rightarrow>
              (real list list \<times> 'a loader_state) option"
    fix P' data' B' lkey' r'
    assume "\<And>data B lkey b y. f data B lkey b = Some y \<Longrightarrow>
              snd (fst (((data, B), lkey), b)) < length (snd (fst (fst (((data, B), lkey), b))))"
      and "(if B' < length data'
            then Some (take_rows data' (take B' (permutation P' (split P' lkey' 2 1) (length data'))),
                       Suspended (split P' lkey' 2 0)
                         (permutation P' (split P' lkey' 2 1) (length data')) 0 B')
            else f P' data' B' (split P' lkey' 2 0)) = Some r'"
    then show "snd (fst (((P', data'), B'), lkey')) < length (snd (fst (fst (((P', data'), B'), lkey'))))"
      by (auto split: if_splits)
  qed
  then show ?thesis by simp
qed

lemma enter_pass_hangs:
  assumes "length data \<le> B"
  shows "enter_pass P data B lkey = None"
proof (cases "enter_pass P data B lkey")
  case None
  then show ?thesis .
next
  case (Some r)
  then have "B < length data" by (rule enter_pass_returns_only_below)
  then show ?thesis using assms by simp
qed

lemma loader_next_hangs:
  "length data \<le> B \<Longrightarrow> loader_next P data B ls = None"
  by (cases ls) (simp_all add: loader_next_def enter_pass_hangs)


lemma pull_hangs:
  "length data \<le> B \<Longrightarrow> pull P data B (Suc n) ls = None"
  by (simp add: loader_next_hangs)


lemma pull_length:
  "pull P data B n ls = Some (bs, ls') \<Longrightarrow> length bs = n"
  by (induction n arbitrary: ls bs ls') (auto split: option.splits)










subsection \<open>The keys of the draws\<close>

text \<open>
  Below, \<open>path\<close> labels the keys by their derivation: entry \<open>i\<close> of a split carries the
  label of its parent followed by \<open>i\<close>. Keys with different labels are different.
\<close>

lemma concat_map_upt_block:
  "concat (map (\<lambda>b. map (\<lambda>ob. f (b * n + ob)) [0..<n]) [0..<B]) = map f [0..<B * n]"
proof (induction B)
  case 0
  show ?case by simp
next
  case (Suc B)
  have "[B * n..<n + B * n] = map (\<lambda>i. i + B * n) [0..<n]"
    by (rule map_add_upt[symmetric])
  then have "map f [B * n..<n + B * n] = map (\<lambda>ob. f (B * n + ob)) [0..<n]"
    by (simp only: map_map o_def add.commute)
  moreover have "[0..<Suc B * n] = [0..<B * n] @ [B * n..<n + B * n]"
    by (simp only: upt_add_eq_append[OF le0] mult_Suc add.commute[of n] add_0)
  ultimately show ?case using Suc by simp
qed

lemma shot_keys_concat:
  "concat (shot_keys P cfg n k) =
     map (split P k (n * batch_size cfg)) [0..<batch_size cfg * n]"
  unfolding shot_keys_def by (rule concat_map_upt_block)

lemma shot_keys_paths:
  assumes "\<forall>k n i. path (split P k n i) = path k @ [i]"
  shows "map path (concat (shot_keys P cfg n k)) =
           map (\<lambda>i. path k @ [i]) [0..<batch_size cfg * n]"
  by (simp add: shot_keys_concat assms)

lemma shot_keys_distinct:
  assumes "\<forall>k n i. path (split P k n i) = path k @ [i]"
  shows "distinct (map path (concat (shot_keys P cfg n k)))"
  by (simp add: shot_keys_paths[OF assms] distinct_map inj_on_def)
















subsection \<open>What a step reads of the random operations\<close>







subsection \<open>The batches of the compiled step\<close>



lemma train_iteration_keeps_batches:
  assumes "train_iteration P cfg obs data rs = Some (Inr rs')" and "traced rs = Some bs"
  shows "traced rs' = Some bs \<and> loader rs' = loader rs"
  using assms
  by (auto simp: train_iteration_def jit_train_step_def split: option.splits sum.splits prod.splits)

lemma train_iters_keep_batches:
  assumes "train_iters P cfg obs data n rs = Some (Inr rs')" and "traced rs = Some bs"
  shows "traced rs' = Some bs \<and> loader rs' = loader rs"
  using assms
proof (induction n arbitrary: rs)
  case 0
  then show ?case by simp
next
  case (Suc n)
  from Suc.prems(1) obtain rs1 where
    rs1: "train_iteration P cfg obs data rs = Some (Inr rs1)"
    and rest: "train_iters P cfg obs data n rs1 = Some (Inr rs')"
    by (auto split: option.splits sum.splits)
  from train_iteration_keeps_batches[OF rs1 Suc.prems(2)]
  have "traced rs1 = Some bs" "loader rs1 = loader rs" by simp_all
  with Suc.IH[OF rest] show ?case by simp
qed


text \<open>The generator loss, spelled out.\<close>

lemma generator_loss_formula:
  "generator_loss P cfg obs q l c z keys =
     - (sum_list (map (critic P c)
          (map2 (\<lambda>zi ki.
                   generator_linear P l
                     (map2 (\<lambda>e kk. add_sampling_error (normal P) e (n_shots cfg) kk)
                        (map (evaluate_circuit P q zi) obs) ki)) z keys))
        / real (length (zip z keys)))"
  by (simp add: generator_loss_def fake_batch_def generator_quantum_def mean_def)






subsection \<open>The instance, computed\<close>

lemmas example_defs = example_prims_def example_config_def example_state_def example_data_def

lemma norm2_single: "norm2 [x] = \<bar>x\<bar>"
  by (simp add: norm2_def)

lemmas step_defs = critic_update_result critic_loss_def fake_batch_def generator_quantum_def
  generator_loss_def data_mix_def mean_def norm2_single latent_batch_def shot_keys_def
  add_sampling_error_def clip_def Let_def power2_eq_square

lemma example_critic_update:
  "critic_update example_prims example_config [[1],[2],[3]] [[3]] example_state =
     (example_state\<lparr>key := [0,0], critic_opt_state := 1, critic_params := 3/2\<rparr>, - 3/2)"
  by (simp add: step_defs example_defs)

lemma example_setup:
  "train_setup example_prims example_config [] =
     Inr ([[1],[2],[3]],
          \<lparr>step_state = example_state, loader = NotStarted [4], traced = None\<rparr>)"
  by (simp add: train_setup_def example_defs get_all_k_local_observables_def n_zero_def)

lemma example_pull:
  "pull example_prims example_data 1 2 (NotStarted [4]) =
     Some ([[[3]], [[2]]], Suspended [4, 0] [2, 1, 0] 1 2)"
  by (simp add: loader_next_def enter_pass_yields take_rows_def example_defs numeral_2_eq_2)

lemmas train_step_defs = train_step_def compute_grads_generator_linear_def
  compute_grads_generator_quantum_def

lemma example_train_step_1:
  "train_step example_prims example_config [[1],[2],[3]] [[[3]]] (example_state\<lparr>key := [0,0]\<rparr>) =
     Inr (\<lparr>generator_quantum_params = 5/2, generator_linear_params = 13/4, critic_params = 3/2,
           generator_quantum_opt_state = 1, generator_linear_opt_state = 1, critic_opt_state = 1,
           key = [0,0,0,0]\<rparr>, - 9/4, - 9/4, - 3/2)"
  by (simp add: train_step_defs step_defs example_defs)

lemma example_train_step_2:
  "train_step example_prims example_config [[1],[2],[3]] [[[3]]]
     \<lparr>generator_quantum_params = 5/2, generator_linear_params = 13/4, critic_params = 3/2,
           generator_quantum_opt_state = 1, generator_linear_opt_state = 1, critic_opt_state = 1,
           key = [0,0,0,0,0]\<rparr> =
     Inr (\<lparr>generator_quantum_params = - 1229/512, generator_linear_params = - 3221/256,
           critic_params = - 193/32,
           generator_quantum_opt_state = 2, generator_linear_opt_state = 2, critic_opt_state = 2,
           key = [0,0,0,0,0,0,0]\<rparr>, 52689/1024, 52689/1024, 547/64)"
  by (simp add: train_step_defs step_defs example_defs)

lemma example_train_step_2_fresh:
  "train_step example_prims example_config [[1],[2],[3]] [[[2]]]
     \<lparr>generator_quantum_params = 5/2, generator_linear_params = 13/4, critic_params = 3/2,
           generator_quantum_opt_state = 1, generator_linear_opt_state = 1, critic_opt_state = 1,
           key = [0,0,0,0,0]\<rparr> =
     Inr (\<lparr>generator_quantum_params = - 3.212890625, generator_linear_params = - 15.20703125,
           critic_params = - 225/32,
           generator_quantum_opt_state = 2, generator_linear_opt_state = 2, critic_opt_state = 2,
           key = [0,0,0,0,0,0,0]\<rparr>, 59.9853515625, 59.9853515625, 10.046875)"
  by (simp add: train_step_defs step_defs example_defs)

lemma train_iters_one:
  "train_iters P cfg obs data 1 rs =
     (case train_iteration P cfg obs data rs of
        None \<Rightarrow> None | Some (Inl e) \<Rightarrow> Some (Inl e) | Some (Inr rs') \<Rightarrow> Some (Inr rs'))"
  by (simp split: option.splits sum.splits)

lemma train_iters_two:
  "train_iters P cfg obs data 2 rs =
     (case train_iteration P cfg obs data rs of
        None \<Rightarrow> None | Some (Inl e) \<Rightarrow> Some (Inl e)
      | Some (Inr rs') \<Rightarrow> train_iters P cfg obs data 1 rs')"
  by (simp add: numeral_2_eq_2 split: option.splits sum.splits)

lemma example_sel:
  "batch_size example_config = 1" "n_critic example_config = 1"
  "key example_state = [0]" "split example_prims k n i = k @ [i]"
  by (simp_all add: example_defs)

lemma example_pull_1:
  "pull example_prims example_data 1 1 (NotStarted [4]) =
     Some ([[[3]]], Suspended [4, 0] [2, 1, 0] 0 1)"
  by (simp add: loader_next_def enter_pass_yields take_rows_def example_defs)

lemma example_iteration_1:
  "train_iteration example_prims example_config [[1],[2],[3]] example_data
     \<lparr>step_state = example_state, loader = NotStarted [4], traced = None\<rparr> =
     Some (Inr \<lparr>step_state =
                  \<lparr>generator_quantum_params = 5/2, generator_linear_params = 13/4,
                   critic_params = 3/2,
                   generator_quantum_opt_state = 1, generator_linear_opt_state = 1,
                   critic_opt_state = 1, key = [0,0,0,0]\<rparr>,
                loader = Closed, traced = Some [[[3]]]\<rparr>)"
  by (simp add: train_iteration_def jit_train_step_def example_sel
      example_pull_1 example_train_step_1 release_def del: One_nat_def pull.simps)

lemma example_iteration_2:
  "train_iteration example_prims example_config [[1],[2],[3]] example_data
     \<lparr>step_state =
                  \<lparr>generator_quantum_params = 5/2, generator_linear_params = 13/4,
                   critic_params = 3/2,
                   generator_quantum_opt_state = 1, generator_linear_opt_state = 1,
                   critic_opt_state = 1, key = [0,0,0,0]\<rparr>,
                loader = Closed, traced = Some [[[3]]]\<rparr> =
     Some (Inr \<lparr>step_state =
                  \<lparr>generator_quantum_params = - 1229/512, generator_linear_params = - 3221/256,
                   critic_params = - 193/32,
                   generator_quantum_opt_state = 2, generator_linear_opt_state = 2,
                   critic_opt_state = 2, key = [0,0,0,0,0,0,0]\<rparr>,
                loader = Closed, traced = Some [[[3]]]\<rparr>)"
  by (simp add: train_iteration_def jit_train_step_def example_sel
      example_train_step_2 del: One_nat_def)

lemma example_train_1:
  "train example_prims example_config [] example_data 1 =
     Some (Inr \<lparr>step_state =
                  \<lparr>generator_quantum_params = 5/2, generator_linear_params = 13/4,
                   critic_params = 3/2,
                   generator_quantum_opt_state = 1, generator_linear_opt_state = 1,
                   critic_opt_state = 1, key = [0,0,0,0]\<rparr>,
                loader = Closed, traced = Some [[[3]]]\<rparr>)"
  by (simp add: train_def example_setup train_iters_one example_iteration_1 del: One_nat_def)

lemma example_train_2:
  "train example_prims example_config [] example_data 2 =
     Some (Inr \<lparr>step_state =
                  \<lparr>generator_quantum_params = - 1229/512, generator_linear_params = - 3221/256,
                   critic_params = - 193/32,
                   generator_quantum_opt_state = 2, generator_linear_opt_state = 2,
                   critic_opt_state = 2, key = [0,0,0,0,0,0,0]\<rparr>,
                loader = Closed, traced = Some [[[3]]]\<rparr>)"
  by (simp add: train_def example_setup train_iters_one train_iters_two
      example_iteration_1 example_iteration_2 del: One_nat_def)






section \<open>The real batches of the critic updates\<close>

text \<open>
  Claim C2 at a failing input: the instance with one critic update per step, batch size 1
  and the data set \<open>[[1], [2], [3]]\<close>, trained for two iterations. The loader yields the
  real batch \<open>[[3]]\<close> first and \<open>[[2]]\<close> next. The claim has every critic update run on a
  fresh real batch; the critic update of the second iteration runs on \<open>[[3]]\<close> again,
  because the compiled step read the loader only when its first call was traced. With the
  fresh batch \<open>[[2]]\<close> the second step would leave the critic at \<open>-225/32\<close>, not at
  \<open>-193/32\<close>.
\<close>

theorem train_step_repeats_real_batch:
  "pull example_prims example_data 1 2 (NotStarted [4]) =
     Some ([[[3]], [[2]]], Suspended [4, 0] [2, 1, 0] 1 2)
   \<and> train example_prims example_config [] example_data 1 =
       Some (Inr \<lparr>step_state =
                    \<lparr>generator_quantum_params = 5/2, generator_linear_params = 13/4,
                     critic_params = 3/2,
                     generator_quantum_opt_state = 1, generator_linear_opt_state = 1,
                     critic_opt_state = 1, key = [0,0,0,0]\<rparr>,
                  loader = Closed, traced = Some [[[3]]]\<rparr>)
   \<and> train example_prims example_config [] example_data 2 =
       Some (Inr \<lparr>step_state =
                    \<lparr>generator_quantum_params = - 1229/512,
                     generator_linear_params = - 3221/256, critic_params = - 193/32,
                     generator_quantum_opt_state = 2, generator_linear_opt_state = 2,
                     critic_opt_state = 2, key = [0,0,0,0,0,0,0]\<rparr>,
                  loader = Closed, traced = Some [[[3]]]\<rparr>)
   \<and> train_step example_prims example_config [[1],[2],[3]] [[[2]]]
         \<lparr>generator_quantum_params = 5/2, generator_linear_params = 13/4,
          critic_params = 3/2,
          generator_quantum_opt_state = 1, generator_linear_opt_state = 1,
          critic_opt_state = 1, key = [0,0,0,0,0]\<rparr> =
       Inr (\<lparr>generator_quantum_params = - 1645/512, generator_linear_params = - 3893/256,
             critic_params = - 225/32,
             generator_quantum_opt_state = 2, generator_linear_opt_state = 2,
             critic_opt_state = 2, key = [0,0,0,0,0,0,0]\<rparr>,
            61425/1024, 61425/1024, 643/64)"
  by (simp add: example_pull example_train_1 example_train_2 example_train_step_2_fresh
      del: One_nat_def)

section \<open>Configurations out of range\<close>




section \<open>Keys and determinism\<close>






end
